theory Spec2Isabelle
  imports Main "HOL-Library.Sublist" "HOL-Library.Char_ord" "HOL-Library.List_Lexorder"
begin

section \<open>The desired-state catalog (package \<open>dialect/sql/schema\<close>)\<close>

text \<open>
  The translation in \<^verbatim>\<open>dialect/sql/schema/atlas.go\<close> reads the catalog structs
  \<open>Table\<close>, \<open>Column\<close>, \<open>Index\<close>, \<open>ForeignKey\<close> and the table \<open>Annotation\<close>.

  Modelled from the spec: the declarations of these structs and of the abstract column
  type enumeration are not among the source files at hand; the records below carry the
  fields that \<^verbatim>\<open>atlas.go\<close> reads, with the meaning section 3 of the specification
  gives them. Strings are sequences of characters; integers of type \<open>int64\<close> are
  \<open>int\<close> (the translation only compares them).
\<close>

datatype field_type =
    TypeInvalid | TypeBool | TypeTime | TypeJSON | TypeUUID | TypeBytes | TypeEnum
  | TypeString | TypeOther
  | TypeInt8 | TypeInt16 | TypeInt32 | TypeInt | TypeInt64
  | TypeUint8 | TypeUint16 | TypeUint32 | TypeUint | TypeUint64
  | TypeFloat32 | TypeFloat64

text \<open>
  A default value is an \<^verbatim>\<open>interface{}\<close>. The translation distinguishes a value whose
  dynamic type is \<open>string\<close> from any other value, of which it only uses the text that
  \<^verbatim>\<open>fmt.Sprint\<close> prints.
\<close>

datatype go_value = VString string | VOther string

fun Sprint :: "go_value \<Rightarrow> string" where
  "Sprint (VString s) = s"
| "Sprint (VOther printed) = printed"

record Column =
  c_Name :: string
  c_Type :: field_type
  c_SchemaType :: "(string \<times> string) list"
  c_typ :: string
  c_Attr :: string
  c_Size :: int
  c_Nullable :: bool
  c_Unique :: bool
  c_Increment :: bool
  c_Default :: "go_value option"
  c_Collation :: string
  c_Enums :: "string list"

record Index =
  i_Name :: string
  i_Unique :: bool
  i_Columns :: "Column list"

text \<open>
  \<open>RefTable\<close> is a pointer to a \<open>Table\<close>; the translation reads nothing but the
  name through it, so the model keeps the name, and \<open>None\<close> for a nil pointer.
\<close>

record ForeignKey =
  fk_Symbol :: string
  fk_Columns :: "Column list"
  fk_RefTable :: "string option"
  fk_RefColumns :: "Column list"
  fk_OnUpdate :: string
  fk_OnDelete :: string

record Annotation =
  an_Charset :: string
  an_Collation :: string
  an_Options :: string
  an_Check :: string
  an_Checks :: "(string \<times> string) list"

record Table =
  t_Name :: string
  t_Columns :: "Column list"
  t_PrimaryKey :: "Column list"
  t_ForeignKeys :: "ForeignKey list"
  t_Indexes :: "Index list"
  t_Annotation :: "Annotation option"

section \<open>The dialect-native catalog (library \<open>ariga.io/atlas/sql/schema\<close>)\<close>

text \<open>
  The output is built with the setters of the atlas library. A pointer to a column of a
  table is its position in the table's column list, and a pointer to a table is its
  position in the translated table list, so that two references to one object stay one
  object.
\<close>

datatype schema_type =
    BoolType string
  | IntegerType string bool
  | BinaryType string
  | JSONType string
  | StringType string int
  | FloatType string
  | TimeType string
  | EnumType string "string list"
  | ParsedType string

datatype attr =
    Charset string
  | Collation string
  | CreateOptions string
  | AutoIncrement int
  | SubPart int

record AColumn =
  ac_Name :: string
  ac_Null :: bool
  ac_Type :: "schema_type option"
  ac_Default :: "string option"
  ac_Attrs :: "attr list"

record IndexPart =
  ip_C :: nat
  ip_Attrs :: "attr list"

record AIndex =
  ai_Name :: string
  ai_Unique :: bool
  ai_Parts :: "IndexPart list"

record AForeignKey =
  afk_Symbol :: string
  afk_Columns :: "nat list"
  afk_RefTable :: "nat option"
  afk_RefColumns :: "nat list"
  afk_OnUpdate :: string
  afk_OnDelete :: string

record Check =
  ck_Name :: string
  ck_Expr :: string

record ATable =
  at_Name :: string
  at_Attrs :: "attr list"
  at_Checks :: "Check list"
  at_Columns :: "AColumn list"
  at_Indexes :: "AIndex list"
  at_PrimaryKey :: "AIndex option"
  at_ForeignKeys :: "AForeignKey list"

definition NewTable :: "string \<Rightarrow> ATable" where
  "NewTable name = \<lparr>at_Name = name, at_Attrs = [], at_Checks = [], at_Columns = [],
     at_Indexes = [], at_PrimaryKey = None, at_ForeignKeys = []\<rparr>"

definition NewColumn :: "string \<Rightarrow> AColumn" where
  "NewColumn name = \<lparr>ac_Name = name, ac_Null = False, ac_Type = None, ac_Default = None,
     ac_Attrs = []\<rparr>"

text \<open>\<^verbatim>\<open>schema.ReplaceOrAppend\<close>: the first attribute of the same Go type is replaced,
  otherwise the new one is appended.\<close>

fun same_kind :: "attr \<Rightarrow> attr \<Rightarrow> bool" where
  "same_kind (Charset _) (Charset _) = True"
| "same_kind (Collation _) (Collation _) = True"
| "same_kind (CreateOptions _) (CreateOptions _) = True"
| "same_kind (AutoIncrement _) (AutoIncrement _) = True"
| "same_kind (SubPart _) (SubPart _) = True"
| "same_kind _ _ = False"

fun ReplaceOrAppend :: "attr list \<Rightarrow> attr \<Rightarrow> attr list" where
  "ReplaceOrAppend [] v = [v]"
| "ReplaceOrAppend (a # as) v = (if same_kind a v then v # as else a # ReplaceOrAppend as v)"

definition SetCharset :: "string \<Rightarrow> ATable \<Rightarrow> ATable" where
  "SetCharset v t = t\<lparr>at_Attrs := ReplaceOrAppend (at_Attrs t) (Charset v)\<rparr>"

definition SetCollation :: "string \<Rightarrow> ATable \<Rightarrow> ATable" where
  "SetCollation v t = t\<lparr>at_Attrs := ReplaceOrAppend (at_Attrs t) (Collation v)\<rparr>"

definition AddAttrs :: "attr \<Rightarrow> ATable \<Rightarrow> ATable" where
  "AddAttrs a t = t\<lparr>at_Attrs := at_Attrs t @ [a]\<rparr>"

definition AddChecks :: "Check \<Rightarrow> ATable \<Rightarrow> ATable" where
  "AddChecks c t = t\<lparr>at_Checks := at_Checks t @ [c]\<rparr>"

definition AddColumns :: "AColumn \<Rightarrow> ATable \<Rightarrow> ATable" where
  "AddColumns c t = t\<lparr>at_Columns := at_Columns t @ [c]\<rparr>"

definition AddIndexes :: "AIndex \<Rightarrow> ATable \<Rightarrow> ATable" where
  "AddIndexes i t = t\<lparr>at_Indexes := at_Indexes t @ [i]\<rparr>"

definition AddForeignKeys :: "AForeignKey \<Rightarrow> ATable \<Rightarrow> ATable" where
  "AddForeignKeys fk t = t\<lparr>at_ForeignKeys := at_ForeignKeys t @ [fk]\<rparr>"

definition SetColumnCollation :: "string \<Rightarrow> AColumn \<Rightarrow> AColumn" where
  "SetColumnCollation v c = c\<lparr>ac_Attrs := ReplaceOrAppend (ac_Attrs c) (Collation v)\<rparr>"

definition AddColumnAttrs :: "attr \<Rightarrow> AColumn \<Rightarrow> AColumn" where
  "AddColumnAttrs a c = c\<lparr>ac_Attrs := ac_Attrs c @ [a]\<rparr>"

definition part_of :: "nat \<Rightarrow> IndexPart" where
  "part_of p = \<lparr>ip_C = p, ip_Attrs = []\<rparr>"

definition NewUniqueIndex :: "string \<Rightarrow> AIndex" where
  "NewUniqueIndex name = \<lparr>ai_Name = name, ai_Unique = True, ai_Parts = []\<rparr>"

definition NewIndex :: "string \<Rightarrow> AIndex" where
  "NewIndex name = \<lparr>ai_Name = name, ai_Unique = False, ai_Parts = []\<rparr>"

definition AddParts :: "IndexPart \<Rightarrow> AIndex \<Rightarrow> AIndex" where
  "AddParts p i = i\<lparr>ai_Parts := ai_Parts i @ [p]\<rparr>"

definition NewPrimaryKey :: "nat list \<Rightarrow> AIndex" where
  "NewPrimaryKey ps = \<lparr>ai_Name = [], ai_Unique = False, ai_Parts = map part_of ps\<rparr>"

text \<open>\<^verbatim>\<open>(*schema.Table).Column(name)\<close>: the first column of that name, if any.\<close>

fun find_pos :: "('a \<Rightarrow> bool) \<Rightarrow> 'a list \<Rightarrow> nat option" where
  "find_pos P [] = None"
| "find_pos P (x # xs) =
     (if P x then Some 0 else (case find_pos P xs of None \<Rightarrow> None | Some k \<Rightarrow> Some (Suc k)))"

definition Column_of :: "ATable \<Rightarrow> string \<Rightarrow> nat option" where
  "Column_of t name = find_pos (\<lambda>c. ac_Name c = name) (at_Columns t)"

section \<open>Errors and the functions the translation calls\<close>

text \<open>
  Every error return of \<^verbatim>\<open>atlas.go\<close> is a value. The three foreign-key errors, the
  primary-key error and the index error carry the operands of their
  \<^verbatim>\<open>fmt.Errorf\<close> format strings; \<open>NilPointerPanic\<close> is the run-time panic of reading
  \<^verbatim>\<open>fk1.RefTable.Name\<close> through a nil pointer. \<open>ParseTypeError\<close> and
  \<open>DatabaseError\<close> stand for whatever error the type parser and the database query
  return.
\<close>

datatype error =
    ParseTypeError string
  | DatabaseError string
  | UnexpectedFkColumn string string
  | UnexpectedFkRefTable string string
  | UnexpectedFkRefColumn string string
  | UnexpectedPrimaryKeyColumn string
  | UnexpectedIndexColumn string string
  | NilPointerPanic

record MySQL =
  version :: string

record Migrate =
  universalID :: bool

text \<open>
  Functions that \<^verbatim>\<open>atlas.go\<close> calls and that are defined elsewhere are parameters of
  the model: the atlas type parser \<^verbatim>\<open>mysql.ParseType\<close>, \<^verbatim>\<open>strings.ToLower\<close>,
  and, of this package, \<^verbatim>\<open>compareVersions\<close>, \<^verbatim>\<open>(*MySQL).mariadb\<close> (its boolean
  result), \<^verbatim>\<open>(*MySQL).defaultSize\<close>, \<^verbatim>\<open>(*Column).scanTypeOr\<close>,
  \<^verbatim>\<open>(*Column).supportDefault\<close>, \<^verbatim>\<open>indexParts\<close> and \<^verbatim>\<open>(*Migrate).pkRange\<close>.
  The last one talks to the database: it takes the state of the connection and returns
  the new one with its result.
\<close>

record 'db helpers =
  parseType :: "string \<Rightarrow> error + schema_type"
  toLower :: "string \<Rightarrow> string"
  compareVersions :: "string \<Rightarrow> string \<Rightarrow> int"
  mariadb :: "MySQL \<Rightarrow> bool"
  defaultSize :: "MySQL \<Rightarrow> Column \<Rightarrow> int"
  scanTypeOr :: "Column \<Rightarrow> string \<Rightarrow> string"
  supportDefault :: "Column \<Rightarrow> bool"
  indexParts :: "Index \<Rightarrow> string \<Rightarrow> nat option"
  pkRange :: "Table \<Rightarrow> 'db \<Rightarrow> (error + int) \<times> 'db"

text \<open>Type names of \<^verbatim>\<open>ariga.io/atlas/sql/mysql\<close> and the dialect name.\<close>

definition dialect_MySQL :: string where "dialect_MySQL = ''mysql''"
definition TypeTinyInt :: string where "TypeTinyInt = ''tinyint''"
definition TypeSmallInt :: string where "TypeSmallInt = ''smallint''"
definition TypeInt' :: string where "TypeInt' = ''int''"
definition TypeBigInt :: string where "TypeBigInt = ''bigint''"
definition TypeTinyBlob :: string where "TypeTinyBlob = ''tinyblob''"
definition TypeBlob :: string where "TypeBlob = ''blob''"
definition TypeMediumBlob :: string where "TypeMediumBlob = ''mediumblob''"
definition TypeLongBlob :: string where "TypeLongBlob = ''longblob''"
definition TypeJSON' :: string where "TypeJSON' = ''json''"
definition TypeVarchar :: string where "TypeVarchar = ''varchar''"
definition TypeMediumText :: string where "TypeMediumText = ''mediumtext''"
definition TypeLongText :: string where "TypeLongText = ''longtext''"
definition TypeDouble :: string where "TypeDouble = ''double''"
definition TypeTimestamp :: string where "TypeTimestamp = ''timestamp''"
definition TypeEnum' :: string where "TypeEnum' = ''enum''"
definition TypeChar :: string where "TypeChar = ''char''"

definition MaxUint8 :: int where "MaxUint8 = 2 ^ 8 - 1"
definition MaxUint16 :: int where "MaxUint16 = 2 ^ 16 - 1"
definition MaxUint32 :: int where "MaxUint32 = 2 ^ 32 - 1"

section \<open>The MySQL builder\<close>

text \<open>A Go map read at a missing key, or a nil map, gives the empty string.\<close>

definition map_get :: "(string \<times> string) list \<Rightarrow> string \<Rightarrow> string" where
  "map_get m k = (case map_of m k of None \<Rightarrow> [] | Some v \<Rightarrow> v)"

definition atTable :: "Table \<Rightarrow> ATable \<Rightarrow> ATable" where
  "atTable t1 t2 =
    (let t2 = SetCollation ''utf8mb4_bin'' (SetCharset ''utf8mb4'' t2) in
     case t_Annotation t1 of
       None \<Rightarrow> t2
     | Some a \<Rightarrow>
        (let t2 = (if an_Charset a \<noteq> [] then SetCharset (an_Charset a) t2 else t2);
             t2 = (if an_Collation a \<noteq> [] then SetCollation (an_Collation a) t2 else t2);
             t2 = (if an_Options a \<noteq> [] then AddAttrs (CreateOptions (an_Options a)) t2 else t2);
             t2 = (if an_Check a \<noteq> []
                   then AddChecks \<lparr>ck_Name = [], ck_Expr = an_Check a\<rparr> t2 else t2)
         in fold (\<lambda>name. AddChecks \<lparr>ck_Name = name, ck_Expr = map_get (an_Checks a) name\<rparr>)
              (sort (map fst (an_Checks a))) t2))"

text \<open>
  \<open>atTypeC\<close>. The variable \<open>t\<close> of the source is an interface value that starts
  nil: the translated type is an option. In the last branch of the outer switch the
  source declares a second \<open>t\<close> with \<^verbatim>\<open>:=\<close>; the assignment after the switch stores
  the outer one, which is still nil.
\<close>

definition atTypeC :: "'db helpers \<Rightarrow> MySQL \<Rightarrow> Column \<Rightarrow> AColumn \<Rightarrow> error + AColumn" where
  "atTypeC h d c1 c2 =
    (if map_get (c_SchemaType c1) dialect_MySQL \<noteq> [] then
       (case parseType h (toLower h (map_get (c_SchemaType c1) dialect_MySQL)) of
          Inl err \<Rightarrow> Inl err
        | Inr t \<Rightarrow> Inr (c2\<lparr>ac_Type := Some t\<rparr>))
     else
       (case c_Type c1 of
          TypeBool \<Rightarrow> Inr (c2\<lparr>ac_Type := Some (BoolType ''boolean'')\<rparr>)
        | TypeInt8 \<Rightarrow> Inr (c2\<lparr>ac_Type := Some (IntegerType TypeTinyInt False)\<rparr>)
        | TypeUint8 \<Rightarrow> Inr (c2\<lparr>ac_Type := Some (IntegerType TypeTinyInt True)\<rparr>)
        | TypeInt16 \<Rightarrow> Inr (c2\<lparr>ac_Type := Some (IntegerType TypeSmallInt False)\<rparr>)
        | TypeUint16 \<Rightarrow> Inr (c2\<lparr>ac_Type := Some (IntegerType TypeSmallInt True)\<rparr>)
        | TypeInt32 \<Rightarrow> Inr (c2\<lparr>ac_Type := Some (IntegerType TypeInt' False)\<rparr>)
        | TypeUint32 \<Rightarrow> Inr (c2\<lparr>ac_Type := Some (IntegerType TypeInt' True)\<rparr>)
        | TypeInt \<Rightarrow> Inr (c2\<lparr>ac_Type := Some (IntegerType TypeBigInt False)\<rparr>)
        | TypeInt64 \<Rightarrow> Inr (c2\<lparr>ac_Type := Some (IntegerType TypeBigInt False)\<rparr>)
        | TypeUint \<Rightarrow> Inr (c2\<lparr>ac_Type := Some (IntegerType TypeBigInt True)\<rparr>)
        | TypeUint64 \<Rightarrow> Inr (c2\<lparr>ac_Type := Some (IntegerType TypeBigInt True)\<rparr>)
        | TypeBytes \<Rightarrow>
            (let size = (if c_Size c1 > 0 then c_Size c1 else MaxUint16);
                 t = (if size \<le> MaxUint8 then Some (BinaryType TypeTinyBlob)
                      else if size \<le> MaxUint16 then Some (BinaryType TypeBlob)
                      else if size < 2 ^ 24 then Some (BinaryType TypeMediumBlob)
                      else if size \<le> MaxUint32 then Some (BinaryType TypeLongBlob)
                      else None)
             in Inr (c2\<lparr>ac_Type := t\<rparr>))
        | TypeJSON \<Rightarrow>
            (let t = (if compareVersions h (version d) ''5.7.8'' = - 1
                      then BinaryType TypeLongBlob else JSONType TypeJSON')
             in Inr (c2\<lparr>ac_Type := Some t\<rparr>))
        | TypeString \<Rightarrow>
            (let size = (if c_Size c1 = 0 then defaultSize h d c1 else c_Size c1);
                 t = (if c_typ c1 = ''tinytext'' \<or> c_typ c1 = ''text'' then StringType (c_typ c1) 0
                      else if size \<le> MaxUint16 then StringType TypeVarchar size
                      else if size = 2 ^ 24 - 1 then StringType TypeMediumText 0
                      else StringType TypeLongText 0)
             in Inr (c2\<lparr>ac_Type := Some t\<rparr>))
        | TypeFloat32 \<Rightarrow> Inr (c2\<lparr>ac_Type := Some (FloatType (scanTypeOr h c1 TypeDouble))\<rparr>)
        | TypeFloat64 \<Rightarrow> Inr (c2\<lparr>ac_Type := Some (FloatType (scanTypeOr h c1 TypeDouble))\<rparr>)
        | TypeTime \<Rightarrow>
            (let t = TimeType (scanTypeOr h c1 TypeTimestamp);
                 c2 = (if mariadb h d \<or>
                          (compareVersions h (version d) ''8.0.2'' = - 1 \<and> c_Default c1 = None)
                       then c2\<lparr>ac_Null := (c_Attr c1 = [])\<rparr> else c2)
             in Inr (c2\<lparr>ac_Type := Some t\<rparr>))
        | TypeEnum \<Rightarrow> Inr (c2\<lparr>ac_Type := Some (EnumType TypeEnum' (c_Enums c1))\<rparr>)
        | TypeUUID \<Rightarrow>
            Inr ((SetColumnCollation ''utf8mb4_bin'' c2)\<lparr>ac_Type := Some (StringType TypeChar 36)\<rparr>)
        | _ \<Rightarrow>
            (case parseType h (c_typ c1) of
               Inl err \<Rightarrow> Inl err
             | Inr t \<Rightarrow> Inr (c2\<lparr>ac_Type := None\<rparr>))))"

text \<open>
  \<^verbatim>\<open>strings.TrimLeft(s, cutset)\<close> removes every leading character of \<open>s\<close> that occurs
  in \<open>cutset\<close>; it is not the removal of a prefix.
\<close>

definition TrimLeft :: "string \<Rightarrow> string \<Rightarrow> string" where
  "TrimLeft s cutset = dropWhile (\<lambda>c. c \<in> set cutset) s"

text \<open>
  \<^verbatim>\<open>strconv.ParseInt(s, 10, 64)\<close>: an optional sign, then one or more decimal digits,
  and a value that fits 64 signed bits; \<open>None\<close> is a non-nil error.
\<close>

definition is_digit :: "char \<Rightarrow> bool" where
  "is_digit c = (c \<in> set ''0123456789'')"

definition digit_val :: "char \<Rightarrow> int" where
  "digit_val c = int (of_char c) - 48"

definition digits_val :: "string \<Rightarrow> int" where
  "digits_val ds = foldl (\<lambda>n c. 10 * n + digit_val c) 0 ds"

definition ParseInt :: "string \<Rightarrow> int option" where
  "ParseInt s =
    (case s of
       [] \<Rightarrow> None
     | c # r \<Rightarrow>
        (let neg = (c = CHR ''-'');
             ds = (if c = CHR ''+'' \<or> c = CHR ''-'' then r else s)
         in if ds = [] \<or> \<not> list_all is_digit ds then None
            else (let un = digits_val ds
                  in if \<not> neg \<and> un \<ge> 2 ^ 63 then None
                     else if neg \<and> un > 2 ^ 63 then None
                     else Some (if neg then - un else un))))"

definition atImplicitIndexName :: "Index \<Rightarrow> Column \<Rightarrow> bool" where
  "atImplicitIndexName idx c1 =
    (if i_Name idx = c_Name c1 then True
     else if \<not> prefix (c_Name c1 @ ''_'') (i_Name idx) then False
     else (case ParseInt (TrimLeft (i_Name idx) (c_Name c1 @ ''_'')) of
             None \<Rightarrow> False
           | Some i \<Rightarrow> i > 1))"

text \<open>
  \<open>atUniqueC\<close>: the column \<open>c2\<close> is not yet in \<open>t2\<close> when it is called; \<open>p\<close> is
  the position it gets when \<open>aColumns\<close> adds it.
\<close>

definition atUniqueC :: "Table \<Rightarrow> Column \<Rightarrow> ATable \<Rightarrow> nat \<Rightarrow> ATable" where
  "atUniqueC t1 c1 t2 p =
    (if list_ex (\<lambda>idx. i_Unique idx \<and> atImplicitIndexName idx c1) (t_Indexes t1) then t2
     else AddIndexes (AddParts (part_of p) (NewUniqueIndex (c_Name c1))) t2)"

definition atIncrementC :: "AColumn \<Rightarrow> AColumn" where
  "atIncrementC c = AddColumnAttrs (AutoIncrement 0) c"

definition atIncrementT :: "ATable \<Rightarrow> int \<Rightarrow> ATable" where
  "atIncrementT t v = AddAttrs (AutoIncrement v) t"

fun atIndex_loop ::
  "(string \<Rightarrow> nat option) \<Rightarrow> string \<Rightarrow> ATable \<Rightarrow> Column list \<Rightarrow> AIndex \<Rightarrow> error + AIndex" where
  "atIndex_loop pre name t2 [] idx2 = Inr idx2"
| "atIndex_loop pre name t2 (c1 # cs) idx2 =
    (case Column_of t2 (c_Name c1) of
       None \<Rightarrow> Inl (UnexpectedIndexColumn name (c_Name c1))
     | Some p \<Rightarrow>
        atIndex_loop pre name t2 cs
          (AddParts \<lparr>ip_C = p,
             ip_Attrs = (case pre (c_Name c1) of None \<Rightarrow> [] | Some v \<Rightarrow> [SubPart (int v)])\<rparr> idx2))"

definition atIndex :: "'db helpers \<Rightarrow> Index \<Rightarrow> ATable \<Rightarrow> AIndex \<Rightarrow> error + AIndex" where
  "atIndex h idx1 t2 idx2 = atIndex_loop (indexParts h idx1) (i_Name idx1) t2 (i_Columns idx1) idx2"

section \<open>The translation\<close>

text \<open>\<^verbatim>\<open>strings.ReplaceAll(v, "'", "''")\<close>: every single quote is written twice.\<close>

definition quote :: char where
  "quote = CHR 0x27"

definition escape_quotes :: "string \<Rightarrow> string" where
  "escape_quotes v = concat (map (\<lambda>c. if c = quote then [quote, quote] else [c]) v)"

text \<open>
  One iteration of the loop of \<open>aColumns\<close>: the column \<open>c1\<close> of \<open>t1\<close> is
  translated and added to \<open>t2\<close>.
\<close>

definition aColumn ::
  "'db helpers \<Rightarrow> MySQL \<Rightarrow> Table \<Rightarrow> Column \<Rightarrow> ATable \<Rightarrow> error + ATable" where
  "aColumn h d t1 c1 t2 =
    (let c2 = (NewColumn (c_Name c1))\<lparr>ac_Null := c_Nullable c1\<rparr>;
         c2 = (if c_Collation c1 \<noteq> [] then SetColumnCollation (c_Collation c1) c2 else c2)
     in case atTypeC h d c1 c2 of
          Inl err \<Rightarrow> Inl err
        | Inr c2 \<Rightarrow>
           (let c2 = (case c_Default c1 of
                        None \<Rightarrow> c2
                      | Some v \<Rightarrow>
                         if supportDefault h c1 then
                           (let x = (case v of
                                       VString s \<Rightarrow>
                                         if c_Type c1 \<noteq> TypeUUID \<and> c_Type c1 \<noteq> TypeTime
                                         then [quote] @ escape_quotes s @ [quote]
                                         else Sprint v
                                     | VOther _ \<Rightarrow> Sprint v)
                            in c2\<lparr>ac_Default := Some x\<rparr>)
                         else c2);
                t2 = (if c_Unique c1 then atUniqueC t1 c1 t2 (length (at_Columns t2)) else t2);
                c2 = (if c_Increment c1 then atIncrementC c2 else c2)
            in Inr (AddColumns c2 t2)))"

fun aColumns_loop ::
  "'db helpers \<Rightarrow> MySQL \<Rightarrow> Table \<Rightarrow> Column list \<Rightarrow> ATable \<Rightarrow> error + ATable" where
  "aColumns_loop h d t1 [] t2 = Inr t2"
| "aColumns_loop h d t1 (c1 # cs) t2 =
    (case aColumn h d t1 c1 t2 of
       Inl err \<Rightarrow> Inl err
     | Inr t2' \<Rightarrow> aColumns_loop h d t1 cs t2')"

definition aColumns :: "'db helpers \<Rightarrow> MySQL \<Rightarrow> Table \<Rightarrow> ATable \<Rightarrow> error + ATable" where
  "aColumns h d t1 t2 = aColumns_loop h d t1 (t_Columns t1) t2"

fun pk_loop :: "ATable \<Rightarrow> Column list \<Rightarrow> error + nat list" where
  "pk_loop t2 [] = Inr []"
| "pk_loop t2 (c1 # cs) =
    (case Column_of t2 (c_Name c1) of
       None \<Rightarrow> Inl (UnexpectedPrimaryKeyColumn (c_Name c1))
     | Some p \<Rightarrow> (case pk_loop t2 cs of Inl err \<Rightarrow> Inl err | Inr ps \<Rightarrow> Inr (p # ps)))"

fun indexes_loop :: "'db helpers \<Rightarrow> Index list \<Rightarrow> ATable \<Rightarrow> error + ATable" where
  "indexes_loop h [] t2 = Inr t2"
| "indexes_loop h (idx1 # is) t2 =
    (case atIndex h idx1 t2 ((NewIndex (i_Name idx1))\<lparr>ai_Unique := i_Unique idx1\<rparr>) of
       Inl err \<Rightarrow> Inl err
     | Inr idx2 \<Rightarrow> indexes_loop h is (AddIndexes idx2 t2))"

definition aIndexes :: "'db helpers \<Rightarrow> Table \<Rightarrow> ATable \<Rightarrow> error + ATable" where
  "aIndexes h t1 t2 =
    (case pk_loop t2 (t_PrimaryKey t1) of
       Inl err \<Rightarrow> Inl err
     | Inr pk \<Rightarrow> indexes_loop h (t_Indexes t1) (t2\<lparr>at_PrimaryKey := Some (NewPrimaryKey pk)\<rparr>))"

text \<open>
  One iteration of the first loop of \<open>aTables\<close>: the table \<open>t1\<close> is built; \<open>s\<close> is
  the state of the database connection that \<open>pkRange\<close> uses.
\<close>

definition aTable ::
  "Migrate \<Rightarrow> 'db helpers \<Rightarrow> MySQL \<Rightarrow> Table \<Rightarrow> 'db \<Rightarrow> (error + ATable) \<times> 'db" where
  "aTable m h d t1 s =
    (let t2 = atTable t1 (NewTable (t_Name t1));
         (r, s') = (if universalID m then
                      (case pkRange h t1 s of
                         (Inl err, s') \<Rightarrow> (Inl err, s')
                       | (Inr r, s') \<Rightarrow> (Inr (atIncrementT t2 r), s'))
                    else (Inr t2, s))
     in case r of
          Inl err \<Rightarrow> (Inl err, s')
        | Inr t2 \<Rightarrow>
           (case aColumns h d t1 t2 of
              Inl err \<Rightarrow> (Inl err, s')
            | Inr t2 \<Rightarrow>
               (case aIndexes h t1 t2 of
                  Inl err \<Rightarrow> (Inl err, s')
                | Inr t2 \<Rightarrow> (Inr t2, s'))))"

fun build_tables ::
  "Migrate \<Rightarrow> 'db helpers \<Rightarrow> MySQL \<Rightarrow> Table list \<Rightarrow> 'db \<Rightarrow> (error + ATable list) \<times> 'db" where
  "build_tables m h d [] s = (Inr [], s)"
| "build_tables m h d (t1 # ts) s =
    (case aTable m h d t1 s of
       (Inl err, s') \<Rightarrow> (Inl err, s')
     | (Inr t2, s') \<Rightarrow>
        (case build_tables m h d ts s' of
           (Inl err, s'') \<Rightarrow> (Inl err, s'')
         | (Inr t2s, s'') \<Rightarrow> (Inr (t2 # t2s), s'')))"

text \<open>
  The second loop of \<open>aTables\<close>. \<open>fk_columns\<close> is the loop over the local or the
  referenced columns of one foreign key; \<open>aForeignKey\<close> is the body of the loop over the
  foreign keys of the table at position \<open>i\<close>; it reads the whole translated list
  \<open>tables2\<close>.
\<close>

fun fk_columns :: "(string \<Rightarrow> error) \<Rightarrow> ATable \<Rightarrow> Column list \<Rightarrow> error + nat list" where
  "fk_columns mk t2 [] = Inr []"
| "fk_columns mk t2 (c1 # cs) =
    (case Column_of t2 (c_Name c1) of
       None \<Rightarrow> Inl (mk (c_Name c1))
     | Some p \<Rightarrow> (case fk_columns mk t2 cs of Inl err \<Rightarrow> Inl err | Inr ps \<Rightarrow> Inr (p # ps)))"

definition aForeignKey :: "ATable list \<Rightarrow> nat \<Rightarrow> ForeignKey \<Rightarrow> error + AForeignKey" where
  "aForeignKey tables2 i fk1 =
    (case fk_columns (UnexpectedFkColumn (fk_Symbol fk1)) (tables2 ! i) (fk_Columns fk1) of
       Inl err \<Rightarrow> Inl err
     | Inr cols \<Rightarrow>
        (case fk_RefTable fk1 of
           None \<Rightarrow> Inl NilPointerPanic
         | Some ref \<Rightarrow>
            (case find_pos (\<lambda>t2. at_Name t2 = ref) tables2 of
               None \<Rightarrow> Inl (UnexpectedFkRefTable (fk_Symbol fk1) ref)
             | Some j \<Rightarrow>
                (case fk_columns (UnexpectedFkRefColumn (fk_Symbol fk1)) (tables2 ! j)
                        (fk_RefColumns fk1) of
                   Inl err \<Rightarrow> Inl err
                 | Inr refcols \<Rightarrow>
                    Inr \<lparr>afk_Symbol = fk_Symbol fk1, afk_Columns = cols, afk_RefTable = Some j,
                         afk_RefColumns = refcols, afk_OnUpdate = fk_OnUpdate fk1,
                         afk_OnDelete = fk_OnDelete fk1\<rparr>))))"

fun fks_loop :: "nat \<Rightarrow> ForeignKey list \<Rightarrow> ATable list \<Rightarrow> error + ATable list" where
  "fks_loop i [] tables2 = Inr tables2"
| "fks_loop i (fk1 # fks) tables2 =
    (case aForeignKey tables2 i fk1 of
       Inl err \<Rightarrow> Inl err
     | Inr fk2 \<Rightarrow> fks_loop i fks (tables2[i := AddForeignKeys fk2 (tables2 ! i)]))"

fun resolve_tables :: "nat \<Rightarrow> Table list \<Rightarrow> ATable list \<Rightarrow> error + ATable list" where
  "resolve_tables i [] tables2 = Inr tables2"
| "resolve_tables i (t1 # ts) tables2 =
    (case fks_loop i (t_ForeignKeys t1) tables2 of
       Inl err \<Rightarrow> Inl err
     | Inr tables2' \<Rightarrow> resolve_tables (Suc i) ts tables2')"

definition aTables ::
  "Migrate \<Rightarrow> 'db helpers \<Rightarrow> MySQL \<Rightarrow> Table list \<Rightarrow> 'db \<Rightarrow> (error + ATable list) \<times> 'db" where
  "aTables m h d tables1 s =
    (case build_tables m h d tables1 s of
       (Inl err, s') \<Rightarrow> (Inl err, s')
     | (Inr tables2, s') \<Rightarrow> (resolve_tables 0 tables1 tables2, s'))"

section \<open>Observations on translated tables\<close>

text \<open>
  What the theorems read off a translated table: the charset and collation attributes,
  the implicit unique indexes that the loop of \<open>aColumns\<close> attaches (for the columns
  \<open>cs\<close>, the first of which gets position \<open>p\<close>), and the relation between an input
  column, index, table or foreign key and its translation.
\<close>

definition charsets :: "ATable \<Rightarrow> string list" where
  "charsets t = concat (map (\<lambda>a. case a of Charset v \<Rightarrow> [v] | _ \<Rightarrow> []) (at_Attrs t))"

definition collations :: "ATable \<Rightarrow> string list" where
  "collations t = concat (map (\<lambda>a. case a of Collation v \<Rightarrow> [v] | _ \<Rightarrow> []) (at_Attrs t))"

fun implicit_indexes :: "Table \<Rightarrow> nat \<Rightarrow> Column list \<Rightarrow> AIndex list" where
  "implicit_indexes t1 p [] = []"
| "implicit_indexes t1 p (c # cs) =
    (if c_Unique c \<and> \<not> list_ex (\<lambda>idx. i_Unique idx \<and> atImplicitIndexName idx c) (t_Indexes t1)
     then [\<lparr>ai_Name = c_Name c, ai_Unique = True, ai_Parts = [\<lparr>ip_C = p, ip_Attrs = []\<rparr>]\<rparr>]
     else []) @ implicit_indexes t1 (Suc p) cs"

definition column_translates :: "'db helpers \<Rightarrow> Column \<Rightarrow> AColumn \<Rightarrow> bool" where
  "column_translates h c1 c2 =
    (ac_Name c2 = c_Name c1 \<and>
     ac_Default c2 =
       (case c_Default c1 of None \<Rightarrow> None
        | Some v \<Rightarrow> if supportDefault h c1
            then Some (case v of
                    VString s \<Rightarrow> if c_Type c1 \<noteq> TypeUUID \<and> c_Type c1 \<noteq> TypeTime
                                then [quote] @ escape_quotes s @ [quote] else Sprint v
                  | VOther x \<Rightarrow> Sprint v)
            else None) \<and>
     (if c_Increment c1 then AutoIncrement 0 \<in> set (ac_Attrs c2) else True))"

definition index_translates :: "ATable \<Rightarrow> Index \<Rightarrow> AIndex \<Rightarrow> bool" where
  "index_translates t2 idx1 idx2 =
    (ai_Name idx2 = i_Name idx1 \<and> ai_Unique idx2 = i_Unique idx1 \<and>
     list_all2 (\<lambda>c p. Column_of t2 (c_Name c) = Some (ip_C p)) (i_Columns idx1) (ai_Parts idx2))"

definition table_translates :: "'db helpers \<Rightarrow> Table \<Rightarrow> ATable \<Rightarrow> bool" where
  "table_translates h t1 t2 =
    (at_Name t2 = t_Name t1 \<and>
     prefix (at_Attrs (atTable t1 (NewTable (t_Name t1)))) (at_Attrs t2) \<and>
     at_Checks t2 = at_Checks (atTable t1 (NewTable (t_Name t1))) \<and>
     list_all2 (column_translates h) (t_Columns t1) (at_Columns t2) \<and>
     (\<exists>is2. at_Indexes t2 = implicit_indexes t1 0 (t_Columns t1) @ is2 \<and>
        list_all2 (index_translates t2) (t_Indexes t1) is2) \<and>
     (\<exists>ps. at_PrimaryKey t2 = Some (NewPrimaryKey ps) \<and>
        list_all2 (\<lambda>c p. Column_of t2 (c_Name c) = Some p) (t_PrimaryKey t1) ps))"

text \<open>
  \<open>fk_resolves tables2 i fk1 fk2\<close>: the translated foreign key \<open>fk2\<close> of the table at
  position \<open>i\<close> carries the symbol of \<open>fk1\<close>, points to the first table of the whole
  list \<open>tables2\<close> that has the name of the referenced table, and its column pointers
  lead to columns with the names of the local and of the referenced columns.
\<close>

definition fk_resolves :: "ATable list \<Rightarrow> nat \<Rightarrow> ForeignKey \<Rightarrow> AForeignKey \<Rightarrow> bool" where
  "fk_resolves tables2 i fk1 fk2 =
    (afk_Symbol fk2 = fk_Symbol fk1 \<and>
     (\<exists>j<length tables2.
        afk_RefTable fk2 = Some j \<and>
        fk_RefTable fk1 = Some (at_Name (tables2 ! j)) \<and>
        (\<forall>j'<j. at_Name (tables2 ! j') \<noteq> at_Name (tables2 ! j)) \<and>
        map (\<lambda>p. ac_Name (at_Columns (tables2 ! i) ! p)) (afk_Columns fk2)
          = map c_Name (fk_Columns fk1) \<and>
        map (\<lambda>p. ac_Name (at_Columns (tables2 ! j) ! p)) (afk_RefColumns fk2)
          = map c_Name (fk_RefColumns fk1)))"

text \<open>The first error of a list of results, or all their values; the error of a result.\<close>

fun collect :: "('e + 'a) list \<Rightarrow> 'e + 'a list" where
  "collect [] = Inr []"
| "collect (x # xs) =
    (case x of
       Inl e \<Rightarrow> Inl e
     | Inr v \<Rightarrow> (case collect xs of Inl e \<Rightarrow> Inl e | Inr vs \<Rightarrow> Inr (v # vs)))"

definition err_of :: "'e + 'a \<Rightarrow> 'e option" where
  "err_of r = (case r of Inl e \<Rightarrow> Some e | Inr v \<Rightarrow> None)"

fun first_some :: "'a option list \<Rightarrow> 'a option" where
  "first_some [] = None"
| "first_some (x # xs) = (case x of Some e \<Rightarrow> Some e | None \<Rightarrow> first_some xs)"

section \<open>The specification's words\<close>

text \<open>
  The implicit naming convention of the specification: an index name is the column name,
  or the column name, an underscore and a number of at least 2 (as
  \<^verbatim>\<open>strconv.ParseInt\<close> reads it). \<open>suffix_fresh\<close> holds for the index names whose part
  after the underscore is empty or starts with a character that is neither an underscore
  nor a character of the column name.
\<close>

definition suffix_after :: "string \<Rightarrow> string \<Rightarrow> string option" where
  "suffix_after cname name =
    (if prefix (cname @ ''_'') name then Some (drop (length cname + 1) name) else None)"

definition spec_implicit_name :: "string \<Rightarrow> string \<Rightarrow> bool" where
  "spec_implicit_name cname name =
    (name = cname \<or>
     (case suffix_after cname name of
        None \<Rightarrow> False
      | Some suf \<Rightarrow> (case ParseInt suf of None \<Rightarrow> False | Some i \<Rightarrow> i \<ge> 2)))"

definition suffix_fresh :: "string \<Rightarrow> string \<Rightarrow> bool" where
  "suffix_fresh cname name =
    (case suffix_after cname name of
       None \<Rightarrow> True
     | Some [] \<Rightarrow> True
     | Some (c # suf) \<Rightarrow> c \<notin> set (cname @ ''_''))"

text \<open>
  The failure of one foreign key in the words of the specification: the first check that
  fails, in the order local columns, referenced table, referenced columns, with the error
  that names the missing column or table (and the panic on a nil \<open>RefTable\<close>).
  \<open>spec_first_fk_error\<close> is the failure of the first such foreign key, tables in order
  and the foreign keys of a table in order.
\<close>

definition first_missing :: "ATable \<Rightarrow> Column list \<Rightarrow> string option" where
  "first_missing t2 cs = find (\<lambda>n. n \<notin> set (map ac_Name (at_Columns t2))) (map c_Name cs)"

definition spec_fk_error :: "ATable list \<Rightarrow> nat \<Rightarrow> ForeignKey \<Rightarrow> error option" where
  "spec_fk_error tables2 i fk =
    (case first_missing (tables2 ! i) (fk_Columns fk) of
       Some n \<Rightarrow> Some (UnexpectedFkColumn (fk_Symbol fk) n)
     | None \<Rightarrow>
        (case fk_RefTable fk of
           None \<Rightarrow> Some NilPointerPanic
         | Some ref \<Rightarrow>
            (case find (\<lambda>t2. at_Name t2 = ref) tables2 of
               None \<Rightarrow> Some (UnexpectedFkRefTable (fk_Symbol fk) ref)
             | Some refT \<Rightarrow>
                (case first_missing refT (fk_RefColumns fk) of
                   Some n \<Rightarrow> Some (UnexpectedFkRefColumn (fk_Symbol fk) n)
                 | None \<Rightarrow> None))))"

definition spec_first_fk_error :: "ATable list \<Rightarrow> Table list \<Rightarrow> error option" where
  "spec_first_fk_error tables2 tables1 =
    first_some (concat (map (\<lambda>(i, t1). map (spec_fk_error tables2 i) (t_ForeignKeys t1))
      (enumerate 0 tables1)))"

section \<open>Example inputs\<close>

text \<open>
  Concrete inputs on which the theorems below are instantiated. \<open>example_helpers\<close>
  gives each function parameter a simple stand-in; its \<open>pkRange\<close> keeps the names of
  the tables it was asked about as the state of the connection, and fails the first time
  it is asked about the table \<open>bad\<close>.
\<close>

definition example_helpers :: "string list helpers" where
  "example_helpers =
    \<lparr>parseType = (\<lambda>s. if s = ''bigint'' then Inr (ParsedType s) else Inl (ParseTypeError s)),
     toLower = (\<lambda>s. s),
     compareVersions = (\<lambda>v w. if v = w then 0
        else if (v, w) \<in> set [(''5.6.35'', ''5.7.8''), (''5.6.35'', ''8.0.2''), (''5.7.22'', ''8.0.2'')]
        then - 1 else 1),
     mariadb = (\<lambda>d. suffix ''MariaDB'' (version d)),
     defaultSize = (\<lambda>d c. 255),
     scanTypeOr = (\<lambda>c t. if c_typ c \<noteq> [] then c_typ c else t),
     supportDefault = (\<lambda>c. True),
     indexParts = (\<lambda>idx name. None),
     pkRange = (\<lambda>t log.
        (if t_Name t = ''bad'' \<and> ''bad'' \<notin> set log then Inl (DatabaseError ''connection lost'')
         else Inr (int (length log) * 2 ^ 32), log @ [t_Name t]))\<rparr>"

definition example_column :: "string \<Rightarrow> field_type \<Rightarrow> Column" where
  "example_column name ty =
    \<lparr>c_Name = name, c_Type = ty, c_SchemaType = [], c_typ = [], c_Attr = [], c_Size = 0,
     c_Nullable = False, c_Unique = False, c_Increment = False, c_Default = None,
     c_Collation = [], c_Enums = []\<rparr>"

definition example_table :: "string \<Rightarrow> Table" where
  "example_table name =
    \<lparr>t_Name = name,
     t_Columns = [(example_column ''id'' TypeInt)\<lparr>c_Increment := True\<rparr>,
                  example_column ''name'' TypeString],
     t_PrimaryKey = [(example_column ''id'' TypeInt)\<lparr>c_Increment := True\<rparr>],
     t_ForeignKeys = [], t_Indexes = [], t_Annotation = None\<rparr>"

definition example_unique_table :: Table where
  "example_unique_table =
    \<lparr>t_Name = ''t'',
     t_Columns = [example_column ''a'' TypeInt, example_column ''b'' TypeInt,
                  (example_column ''c'' TypeInt)\<lparr>c_Unique := True\<rparr>],
     t_PrimaryKey = [],
     t_ForeignKeys = [],
     t_Indexes = [\<lparr>i_Name = ''c'', i_Unique = True,
                    i_Columns = [example_column ''a'' TypeInt, example_column ''b'' TypeInt]\<rparr>],
     t_Annotation = None\<rparr>"

definition example_email_table :: "Index list \<Rightarrow> Table" where
  "example_email_table idxs =
    \<lparr>t_Name = ''users'',
     t_Columns = [example_column ''id'' TypeInt,
                  (example_column ''email'' TypeString)\<lparr>c_Unique := True\<rparr>],
     t_PrimaryKey = [example_column ''id'' TypeInt],
     t_ForeignKeys = [],
     t_Indexes = idxs,
     t_Annotation = None\<rparr>"

text \<open>
  The tables \<open>cities\<close> and \<open>streets\<close> of the repository's example schema
  (\<^verbatim>\<open>examples/.../migrate/schema.go\<close>), with the local column and the referenced table
  of the foreign key of \<open>streets\<close> as parameters, and what the first pass builds from
  them.
\<close>

definition CitiesTable :: Table where
  "CitiesTable =
    \<lparr>t_Name = ''cities'',
     t_Columns = [(example_column ''id'' TypeInt)\<lparr>c_Increment := True\<rparr>,
                  example_column ''name'' TypeString],
     t_PrimaryKey = [(example_column ''id'' TypeInt)\<lparr>c_Increment := True\<rparr>],
     t_ForeignKeys = [], t_Indexes = [], t_Annotation = None\<rparr>"

definition StreetsTable :: "string \<Rightarrow> string \<Rightarrow> Table" where
  "StreetsTable local ref =
    \<lparr>t_Name = ''streets'',
     t_Columns = [(example_column ''id'' TypeInt)\<lparr>c_Increment := True\<rparr>,
                  example_column ''name'' TypeString,
                  (example_column ''city_streets'' TypeInt)\<lparr>c_Nullable := True\<rparr>],
     t_PrimaryKey = [(example_column ''id'' TypeInt)\<lparr>c_Increment := True\<rparr>],
     t_ForeignKeys =
       [\<lparr>fk_Symbol = ''streets_cities_streets'',
         fk_Columns = [(example_column local TypeInt)\<lparr>c_Nullable := True\<rparr>],
         fk_RefTable = Some ref,
         fk_RefColumns = [(example_column ''id'' TypeInt)\<lparr>c_Increment := True\<rparr>],
         fk_OnUpdate = [], fk_OnDelete = ''SET NULL''\<rparr>],
     t_Indexes =
       [\<lparr>i_Name = ''street_name_city_streets'', i_Unique = True,
         i_Columns = [example_column ''name'' TypeString,
                      (example_column ''city_streets'' TypeInt)\<lparr>c_Nullable := True\<rparr>]\<rparr>],
     t_Annotation = None\<rparr>"

definition built_streets :: ATable where
  "built_streets =
    \<lparr>at_Name = ''streets'',
     at_Attrs = [Charset ''utf8mb4'', Collation ''utf8mb4_bin''],
     at_Checks = [],
     at_Columns =
       [\<lparr>ac_Name = ''id'', ac_Null = False, ac_Type = Some (IntegerType ''bigint'' False),
         ac_Default = None, ac_Attrs = [AutoIncrement 0]\<rparr>,
        \<lparr>ac_Name = ''name'', ac_Null = False, ac_Type = Some (StringType ''varchar'' 255),
         ac_Default = None, ac_Attrs = []\<rparr>,
        \<lparr>ac_Name = ''city_streets'', ac_Null = True, ac_Type = Some (IntegerType ''bigint'' False),
         ac_Default = None, ac_Attrs = []\<rparr>],
     at_Indexes =
       [\<lparr>ai_Name = ''street_name_city_streets'', ai_Unique = True,
         ai_Parts = [\<lparr>ip_C = 1, ip_Attrs = []\<rparr>, \<lparr>ip_C = 2, ip_Attrs = []\<rparr>]\<rparr>],
     at_PrimaryKey =
       Some \<lparr>ai_Name = [], ai_Unique = False, ai_Parts = [\<lparr>ip_C = 0, ip_Attrs = []\<rparr>]\<rparr>,
     at_ForeignKeys = []\<rparr>"

definition built_cities :: ATable where
  "built_cities =
    \<lparr>at_Name = ''cities'',
     at_Attrs = [Charset ''utf8mb4'', Collation ''utf8mb4_bin''],
     at_Checks = [],
     at_Columns =
       [\<lparr>ac_Name = ''id'', ac_Null = False, ac_Type = Some (IntegerType ''bigint'' False),
         ac_Default = None, ac_Attrs = [AutoIncrement 0]\<rparr>,
        \<lparr>ac_Name = ''name'', ac_Null = False, ac_Type = Some (StringType ''varchar'' 255),
         ac_Default = None, ac_Attrs = []\<rparr>],
     at_Indexes = [],
     at_PrimaryKey =
       Some \<lparr>ai_Name = [], ai_Unique = False, ai_Parts = [\<lparr>ip_C = 0, ip_Attrs = []\<rparr>]\<rparr>,
     at_ForeignKeys = []\<rparr>"

section \<open>The type mapper\<close>

text \<open>
  A non-empty \<open>SchemaType\<close> entry for MySQL decides the type alone: the type parser is
  run on it and the kind of the column is not looked at.
\<close>

lemma atTypeC_override:
  assumes "map_get (c_SchemaType c1) dialect_MySQL \<noteq> []"
  shows "atTypeC h d c1 c2 =
    (case parseType h (toLower h (map_get (c_SchemaType c1) dialect_MySQL)) of
       Inl err \<Rightarrow> Inl err
     | Inr t \<Rightarrow> Inr (c2\<lparr>ac_Type := Some t\<rparr>))"
  using assms by (simp add: atTypeC_def)

text \<open>
  C5 (amended). A bytes column with no \<open>SchemaType\<close> entry for MySQL gets its blob type from its
  size: tinyblob up to \<open>2^8 - 1\<close>, blob up to \<open>2^16 - 1\<close>, mediumblob below \<open>2^24\<close>,
  longblob up to \<open>2^32 - 1\<close>; a size that is zero or negative counts as \<open>2^16 - 1\<close>
  and gives blob.
\<close>

theorem atTypeC_bytes_tiers:
  assumes "map_get (c_SchemaType c1) dialect_MySQL = []" and "c_Type c1 = TypeBytes"
  shows "(c_Size c1 \<le> 0 \<longrightarrow> atTypeC h d c1 c2 = Inr (c2\<lparr>ac_Type := Some (BinaryType ''blob'')\<rparr>))
    \<and> (0 < c_Size c1 \<and> c_Size c1 \<le> 2 ^ 8 - 1 \<longrightarrow>
          atTypeC h d c1 c2 = Inr (c2\<lparr>ac_Type := Some (BinaryType ''tinyblob'')\<rparr>))
    \<and> (2 ^ 8 - 1 < c_Size c1 \<and> c_Size c1 \<le> 2 ^ 16 - 1 \<longrightarrow>
          atTypeC h d c1 c2 = Inr (c2\<lparr>ac_Type := Some (BinaryType ''blob'')\<rparr>))
    \<and> (2 ^ 16 - 1 < c_Size c1 \<and> c_Size c1 < 2 ^ 24 \<longrightarrow>
          atTypeC h d c1 c2 = Inr (c2\<lparr>ac_Type := Some (BinaryType ''mediumblob'')\<rparr>))
    \<and> (2 ^ 24 \<le> c_Size c1 \<and> c_Size c1 \<le> 2 ^ 32 - 1 \<longrightarrow>
          atTypeC h d c1 c2 = Inr (c2\<lparr>ac_Type := Some (BinaryType ''longblob'')\<rparr>))"
  using assms
  by (simp add: atTypeC_def Let_def MaxUint8_def MaxUint16_def MaxUint32_def
      TypeTinyBlob_def TypeBlob_def TypeMediumBlob_def TypeLongBlob_def)

theorem atTypeC_bytes_tiers_witness:
  "atTypeC example_helpers \<lparr>version = ''8.0.19''\<rparr>
     ((example_column ''data'' TypeBytes)\<lparr>c_Size := 70000\<rparr>) (NewColumn ''data'')
   = Inr ((NewColumn ''data'')\<lparr>ac_Type := Some (BinaryType ''mediumblob'')\<rparr>)
   \<and> atTypeC example_helpers \<lparr>version = ''8.0.19''\<rparr>
     (example_column ''data'' TypeBytes) (NewColumn ''data'')
   = Inr ((NewColumn ''data'')\<lparr>ac_Type := Some (BinaryType ''blob'')\<rparr>)"
  using atTypeC_bytes_tiers [of "(example_column ''data'' TypeBytes)\<lparr>c_Size := 70000\<rparr>"
      example_helpers "\<lparr>version = ''8.0.19''\<rparr>" "NewColumn ''data''"]
    atTypeC_bytes_tiers [of "example_column ''data'' TypeBytes"
      example_helpers "\<lparr>version = ''8.0.19''\<rparr>" "NewColumn ''data''"]
  by (simp add: example_column_def map_get_def)

text \<open>
  C5 as stated fails for a bytes column with a \<open>SchemaType\<close> entry for MySQL: the size
  10 does not give tinyblob, the entry gives the type.
\<close>

theorem atTypeC_bytes_override:
  "c_Type ((example_column ''data'' TypeBytes)\<lparr>c_Size := 10, c_SchemaType := [(''mysql'', ''bigint'')]\<rparr>)
     = TypeBytes
   \<and> atTypeC example_helpers \<lparr>version = ''8.0.19''\<rparr>
     ((example_column ''data'' TypeBytes)\<lparr>c_Size := 10, c_SchemaType := [(''mysql'', ''bigint'')]\<rparr>)
     (NewColumn ''data'')
   = Inr ((NewColumn ''data'')\<lparr>ac_Type := Some (ParsedType ''bigint'')\<rparr>)"
  by (simp add: atTypeC_override example_column_def map_get_def dialect_MySQL_def
      example_helpers_def)

text \<open>
  C9 (amended). A bytes column with no \<open>SchemaType\<close> entry for MySQL whose size exceeds
  \<open>2^32 - 1\<close> is translated without an error, and the translated column has no type
  (the nil interface value): no branch of the size switch is taken.
\<close>

theorem atTypeC_bytes_oversized:
  assumes "map_get (c_SchemaType c1) dialect_MySQL = []" and "c_Type c1 = TypeBytes"
    and "c_Size c1 > 2 ^ 32 - 1"
  shows "atTypeC h d c1 c2 = Inr (c2\<lparr>ac_Type := None\<rparr>)"
  using assms
  by (simp add: atTypeC_def Let_def MaxUint8_def MaxUint16_def MaxUint32_def)

theorem atTypeC_bytes_oversized_witness:
  "atTypeC example_helpers \<lparr>version = ''8.0.19''\<rparr>
     ((example_column ''data'' TypeBytes)\<lparr>c_Size := 4294967296\<rparr>) (NewColumn ''data'')
   = Inr ((NewColumn ''data'')\<lparr>ac_Type := None\<rparr>)"
  using atTypeC_bytes_oversized [of "(example_column ''data'' TypeBytes)\<lparr>c_Size := 4294967296\<rparr>"
      example_helpers "\<lparr>version = ''8.0.19''\<rparr>" "NewColumn ''data''"]
  by (simp add: example_column_def map_get_def)

text \<open>
  C9 as stated fails for a bytes column with a \<open>SchemaType\<close> entry for MySQL: the
  translated column of the oversized column has the type of the entry, not nil.
\<close>

theorem atTypeC_bytes_oversized_override:
  "c_Type ((example_column ''data'' TypeBytes)
       \<lparr>c_Size := 4294967296, c_SchemaType := [(''mysql'', ''bigint'')]\<rparr>) = TypeBytes
   \<and> atTypeC example_helpers \<lparr>version = ''8.0.19''\<rparr>
     ((example_column ''data'' TypeBytes)
       \<lparr>c_Size := 4294967296, c_SchemaType := [(''mysql'', ''bigint'')]\<rparr>)
     (NewColumn ''data'')
   = Inr ((NewColumn ''data'')\<lparr>ac_Type := Some (ParsedType ''bigint'')\<rparr>)"
  by (simp add: atTypeC_override example_column_def map_get_def dialect_MySQL_def
      example_helpers_def)

text \<open>
  The last branch of the outer switch loses the type in the same way as the oversized
  bytes column: the parsed type is stored in the inner \<open>t\<close>, and the assignment after the
  switch overwrites it with the outer one, which is nil.
\<close>

lemma atTypeC_other_type_lost:
  assumes "map_get (c_SchemaType c1) dialect_MySQL = []" and "c_Type c1 = TypeOther"
    and "parseType h (c_typ c1) = Inr t"
  shows "atTypeC h d c1 c2 = Inr (c2\<lparr>ac_Type := None\<rparr>)"
  using assms by (simp add: atTypeC_def)

text \<open>
  C7 (amended). A JSON column with no \<open>SchemaType\<close> entry for MySQL gets the type longblob when
  \<open>compareVersions\<close> puts the server version strictly below 5.7.8 (result \<open>-1\<close>), and the
  native type json otherwise.
\<close>

theorem atTypeC_json:
  assumes "map_get (c_SchemaType c1) dialect_MySQL = []" and "c_Type c1 = TypeJSON"
  shows "(compareVersions h (version d) ''5.7.8'' = - 1 \<longrightarrow>
            atTypeC h d c1 c2 = Inr (c2\<lparr>ac_Type := Some (BinaryType ''longblob'')\<rparr>))
       \<and> (compareVersions h (version d) ''5.7.8'' \<noteq> - 1 \<longrightarrow>
            atTypeC h d c1 c2 = Inr (c2\<lparr>ac_Type := Some (JSONType ''json'')\<rparr>))"
  using assms
  by (simp add: atTypeC_def Let_def TypeLongBlob_def TypeJSON'_def)

theorem atTypeC_json_witness:
  "atTypeC example_helpers \<lparr>version = ''5.6.35''\<rparr> (example_column ''doc'' TypeJSON) (NewColumn ''doc'')
     = Inr ((NewColumn ''doc'')\<lparr>ac_Type := Some (BinaryType ''longblob'')\<rparr>)
   \<and> atTypeC example_helpers \<lparr>version = ''5.7.8''\<rparr> (example_column ''doc'' TypeJSON) (NewColumn ''doc'')
     = Inr ((NewColumn ''doc'')\<lparr>ac_Type := Some (JSONType ''json'')\<rparr>)"
  using atTypeC_json [of "example_column ''doc'' TypeJSON" example_helpers
      "\<lparr>version = ''5.6.35''\<rparr>" "NewColumn ''doc''"]
    atTypeC_json [of "example_column ''doc'' TypeJSON" example_helpers
      "\<lparr>version = ''5.7.8''\<rparr>" "NewColumn ''doc''"]
  by (simp add: example_column_def map_get_def example_helpers_def)

text \<open>
  C7 as stated fails for a JSON column with a \<open>SchemaType\<close> entry for MySQL: on a server
  later than 5.7.8 the column does not get the native JSON type, the entry gives the type.
\<close>

theorem atTypeC_json_override:
  "c_Type ((example_column ''doc'' TypeJSON)\<lparr>c_SchemaType := [(''mysql'', ''bigint'')]\<rparr>) = TypeJSON
   \<and> compareVersions example_helpers ''8.0.19'' ''5.7.8'' = 1
   \<and> atTypeC example_helpers \<lparr>version = ''8.0.19''\<rparr>
     ((example_column ''doc'' TypeJSON)\<lparr>c_SchemaType := [(''mysql'', ''bigint'')]\<rparr>)
     (NewColumn ''doc'')
   = Inr ((NewColumn ''doc'')\<lparr>ac_Type := Some (ParsedType ''bigint'')\<rparr>)"
  by (simp add: atTypeC_override example_column_def map_get_def dialect_MySQL_def
      example_helpers_def)

text \<open>
  The time branch of \<open>atTypeC\<close>. In Go \<^verbatim>\<open>&&\<close> binds tighter than \<^verbatim>\<open>||\<close>: the
  test for a missing default belongs to the version comparison only, not to MariaDB.
\<close>

lemma atTypeC_time:
  assumes "map_get (c_SchemaType c1) dialect_MySQL = []" and "c_Type c1 = TypeTime"
  shows "atTypeC h d c1 c2 =
    Inr (c2\<lparr>ac_Null := (if mariadb h d \<or>
                            (compareVersions h (version d) ''8.0.2'' = - 1 \<and> c_Default c1 = None)
                         then c_Attr c1 = [] else ac_Null c2),
            ac_Type := Some (TimeType (scanTypeOr h c1 ''timestamp''))\<rparr>)"
  using assms by (simp add: atTypeC_def Let_def TypeTimestamp_def)

text \<open>
  C3. On MariaDB, a time column that is not nullable, has a default and an empty \<open>Attr\<close>
  is translated to a nullable column: the default does not keep the mapper from forcing
  the nullability.
\<close>

theorem atTypeC_time_mariadb_default:
  "atTypeC example_helpers \<lparr>version = ''10.5.8-MariaDB''\<rparr>
     ((example_column ''created_at'' TypeTime)\<lparr>c_Default := Some (VOther ''CURRENT_TIMESTAMP'')\<rparr>)
     ((NewColumn ''created_at'')\<lparr>ac_Null := False\<rparr>)
   = Inr ((NewColumn ''created_at'')\<lparr>ac_Null := True, ac_Type := Some (TimeType ''timestamp'')\<rparr>)"
  by (simp add: atTypeC_time example_column_def map_get_def example_helpers_def NewColumn_def
      suffix_def)

section \<open>Table attributes\<close>

lemma at_Attrs_fold_AddChecks:
  "at_Attrs (fold (\<lambda>name. AddChecks (f name)) names t) = at_Attrs t"
  by (induction names arbitrary: t) (simp_all add: AddChecks_def)

text \<open>
  C10. A table built for MySQL from a new table carries exactly one charset and one
  collation attribute: \<open>utf8mb4\<close> and \<open>utf8mb4_bin\<close> when the table has no annotation
  or the annotation leaves the field empty, and the annotation's value otherwise, each
  field on its own.
\<close>

theorem atTable_charset_collation:
  "charsets (atTable t1 (NewTable n)) =
     [case t_Annotation t1 of None \<Rightarrow> ''utf8mb4''
      | Some a \<Rightarrow> if an_Charset a = [] then ''utf8mb4'' else an_Charset a]
   \<and> collations (atTable t1 (NewTable n)) =
     [case t_Annotation t1 of None \<Rightarrow> ''utf8mb4_bin''
      | Some a \<Rightarrow> if an_Collation a = [] then ''utf8mb4_bin'' else an_Collation a]"
  by (simp add: atTable_def charsets_def collations_def NewTable_def SetCharset_def
      SetCollation_def AddAttrs_def AddChecks_def at_Attrs_fold_AddChecks Let_def
      split: option.split)

section \<open>The first pass: building the tables\<close>

lemma atTypeC_frame:
  assumes "atTypeC h d c1 c2 = Inr c2'"
  shows "ac_Name c2' = ac_Name c2 \<and> ac_Default c2' = ac_Default c2"
proof (cases "map_get (c_SchemaType c1) dialect_MySQL = []")
  case False
  with assms show ?thesis
    by (auto simp: atTypeC_def split: sum.splits)
next
  case True
  with assms show ?thesis
    by (cases "c_Type c1")
      (auto simp: atTypeC_def Let_def SetColumnCollation_def split: sum.splits if_splits)
qed

lemma atUniqueC_frame:
  "at_Columns (atUniqueC t1 c1 t2 p) = at_Columns t2"
  by (simp add: atUniqueC_def AddIndexes_def)

lemma aColumn_Inr:
  assumes "aColumn h d t1 c1 t2 = Inr t2'"
  shows "\<exists>c2. column_translates h c1 c2 \<and>
    t2' = t2\<lparr>at_Columns := at_Columns t2 @ [c2],
             at_Indexes := at_Indexes t2 @ implicit_indexes t1 (length (at_Columns t2)) [c1]\<rparr>"
proof -
  define c0 where "c0 = (if c_Collation c1 \<noteq> []
      then SetColumnCollation (c_Collation c1) ((NewColumn (c_Name c1))\<lparr>ac_Null := c_Nullable c1\<rparr>)
      else (NewColumn (c_Name c1))\<lparr>ac_Null := c_Nullable c1\<rparr>)"
  have c0: "ac_Name c0 = c_Name c1" "ac_Default c0 = None"
    by (simp_all add: c0_def NewColumn_def SetColumnCollation_def)
  from assms obtain c2 where ty: "atTypeC h d c1 c0 = Inr c2"
    unfolding aColumn_def Let_def c0_def [symmetric]
    by (cases "atTypeC h d c1 c0") simp_all
  have c2: "ac_Name c2 = c_Name c1" "ac_Default c2 = None"
    using atTypeC_frame [OF ty] c0 by simp_all
  define c3 where "c3 = (case c_Default c1 of None \<Rightarrow> c2
      | Some v \<Rightarrow> if supportDefault h c1
          then c2\<lparr>ac_Default := Some (case v of
                    VString s \<Rightarrow> if c_Type c1 \<noteq> TypeUUID \<and> c_Type c1 \<noteq> TypeTime
                                then [quote] @ escape_quotes s @ [quote] else Sprint v
                  | VOther x \<Rightarrow> Sprint v)\<rparr>
          else c2)"
  define c4 where "c4 = (if c_Increment c1 then atIncrementC c3 else c3)"
  have t2': "t2' = AddColumns c4
      (if c_Unique c1 then atUniqueC t1 c1 t2 (length (at_Columns t2)) else t2)"
    using assms ty unfolding aColumn_def Let_def c0_def [symmetric] c4_def c3_def
    by (simp split: option.splits go_value.splits)
  have "column_translates h c1 c4"
    unfolding column_translates_def
    by (simp add: c4_def c3_def c2 atIncrementC_def AddColumnAttrs_def split: option.splits)
  moreover have "t2' = t2\<lparr>at_Columns := at_Columns t2 @ [c4],
             at_Indexes := at_Indexes t2 @ implicit_indexes t1 (length (at_Columns t2)) [c1]\<rparr>"
    by (simp add: t2' AddColumns_def atUniqueC_def AddIndexes_def AddParts_def
        NewUniqueIndex_def part_of_def)
  ultimately show ?thesis by blast
qed

lemma implicit_indexes_append:
  "implicit_indexes t1 p (cs @ cs') =
     implicit_indexes t1 p cs @ implicit_indexes t1 (p + length cs) cs'"
  by (induction cs arbitrary: p) simp_all

lemma aColumns_loop_Inr:
  assumes "aColumns_loop h d t1 cs t2 = Inr t2'"
  shows "\<exists>cs2. list_all2 (column_translates h) cs cs2 \<and>
    t2' = t2\<lparr>at_Columns := at_Columns t2 @ cs2,
             at_Indexes := at_Indexes t2 @ implicit_indexes t1 (length (at_Columns t2)) cs\<rparr>"
  using assms
proof (induction cs arbitrary: t2)
  case Nil
  then show ?case by simp
next
  case (Cons c1 cs)
  from Cons.prems obtain ta where a: "aColumn h d t1 c1 t2 = Inr ta"
    and l: "aColumns_loop h d t1 cs ta = Inr t2'"
    by (auto split: sum.splits)
  from aColumn_Inr [OF a] obtain c2 where c2: "column_translates h c1 c2"
    and ta: "ta = t2\<lparr>at_Columns := at_Columns t2 @ [c2],
             at_Indexes := at_Indexes t2 @ implicit_indexes t1 (length (at_Columns t2)) [c1]\<rparr>"
    by blast
  from Cons.IH [OF l] obtain cs2 where cs2: "list_all2 (column_translates h) cs cs2"
    and t2': "t2' = ta\<lparr>at_Columns := at_Columns ta @ cs2,
             at_Indexes := at_Indexes ta @ implicit_indexes t1 (length (at_Columns ta)) cs\<rparr>"
    by blast
  have "list_all2 (column_translates h) (c1 # cs) (c2 # cs2)"
    using c2 cs2 by simp
  moreover have "t2' = t2\<lparr>at_Columns := at_Columns t2 @ (c2 # cs2),
             at_Indexes := at_Indexes t2 @ implicit_indexes t1 (length (at_Columns t2)) (c1 # cs)\<rparr>"
    unfolding t2' ta by simp
  ultimately show ?case by blast
qed

lemma find_pos_Some:
  assumes "find_pos P xs = Some k"
  shows "k < length xs \<and> P (xs ! k) \<and> (\<forall>j<k. \<not> P (xs ! j))"
  using assms
proof (induction xs arbitrary: k)
  case Nil
  then show ?case by simp
next
  case (Cons x xs)
  show ?case
  proof (cases "P x")
    case True
    with Cons.prems show ?thesis by simp
  next
    case False
    with Cons.prems obtain k' where k': "find_pos P xs = Some k'" "k = Suc k'"
      by (auto split: option.splits)
    from Cons.IH [OF k'(1)] False k'(2) show ?thesis
      by (auto simp: less_Suc_eq_0_disj)
  qed
qed

lemma find_pos_None: "find_pos P xs = None \<longleftrightarrow> (\<forall>x\<in>set xs. \<not> P x)"
  by (induction xs) (auto split: option.splits)

lemma find_pos_cong:
  assumes "list_all2 (\<lambda>x y. P x = Q y) xs ys"
  shows "find_pos P xs = find_pos Q ys"
  using assms by (induction rule: list_all2_induct) simp_all

lemma pk_loop_Inr:
  assumes "pk_loop t2 cs = Inr ps"
  shows "list_all2 (\<lambda>c p. Column_of t2 (c_Name c) = Some p) cs ps"
  using assms
  by (induction cs arbitrary: ps) (auto split: option.splits sum.splits)

lemma atIndex_loop_Inr:
  assumes "atIndex_loop pre name t2 cs idx2 = Inr idx2'"
  shows "\<exists>ps. idx2' = idx2\<lparr>ai_Parts := ai_Parts idx2 @ ps\<rparr> \<and>
    list_all2 (\<lambda>c p. Column_of t2 (c_Name c) = Some (ip_C p)) cs ps"
  using assms
proof (induction cs arbitrary: idx2)
  case Nil
  then show ?case by simp
next
  case (Cons c1 cs)
  from Cons.prems obtain p where p: "Column_of t2 (c_Name c1) = Some p"
    by (auto split: option.splits)
  define part where "part = \<lparr>ip_C = p,
      ip_Attrs = (case pre (c_Name c1) of None \<Rightarrow> [] | Some v \<Rightarrow> [SubPart (int v)])\<rparr>"
  from Cons.prems p have "atIndex_loop pre name t2 cs (AddParts part idx2) = Inr idx2'"
    by (simp add: part_def)
  from Cons.IH [OF this] obtain ps where
    ps: "idx2' = (AddParts part idx2)\<lparr>ai_Parts := ai_Parts (AddParts part idx2) @ ps\<rparr>"
      "list_all2 (\<lambda>c p. Column_of t2 (c_Name c) = Some (ip_C p)) cs ps"
    by blast
  have "idx2' = idx2\<lparr>ai_Parts := ai_Parts idx2 @ (part # ps)\<rparr>"
    by (simp add: ps(1) AddParts_def)
  moreover have "list_all2 (\<lambda>c p. Column_of t2 (c_Name c) = Some (ip_C p)) (c1 # cs) (part # ps)"
    using ps(2) p by (simp add: part_def)
  ultimately show ?case by blast
qed

lemma atIndex_Inr:
  assumes "atIndex h idx1 t2 ((NewIndex (i_Name idx1))\<lparr>ai_Unique := i_Unique idx1\<rparr>) = Inr idx2"
  shows "index_translates t2 idx1 idx2"
  using atIndex_loop_Inr [OF assms [unfolded atIndex_def]]
  by (auto simp: index_translates_def NewIndex_def)

lemma Column_of_cong: "at_Columns t = at_Columns t' \<Longrightarrow> Column_of t = Column_of t'"
  by (simp add: Column_of_def fun_eq_iff)

lemma index_translates_cong:
  "at_Columns t = at_Columns t' \<Longrightarrow> index_translates t = index_translates t'"
  by (simp add: index_translates_def fun_eq_iff Column_of_cong [of t t'])

lemma indexes_loop_Inr:
  assumes "indexes_loop h is t2 = Inr t2'"
  shows "\<exists>is2. t2' = t2\<lparr>at_Indexes := at_Indexes t2 @ is2\<rparr> \<and>
    list_all2 (index_translates t2) is is2"
  using assms
proof (induction "is" arbitrary: t2)
  case Nil
  then show ?case by simp
next
  case (Cons idx1 "is")
  from Cons.prems obtain idx2 where
    a: "atIndex h idx1 t2 ((NewIndex (i_Name idx1))\<lparr>ai_Unique := i_Unique idx1\<rparr>) = Inr idx2"
    and l: "indexes_loop h is (AddIndexes idx2 t2) = Inr t2'"
    by (auto split: sum.splits)
  from Cons.IH [OF l] obtain is2 where
    is2: "t2' = (AddIndexes idx2 t2)\<lparr>at_Indexes := at_Indexes (AddIndexes idx2 t2) @ is2\<rparr>"
      "list_all2 (index_translates (AddIndexes idx2 t2)) is is2"
    by blast
  have eq: "index_translates (AddIndexes idx2 t2) = index_translates t2"
    by (rule index_translates_cong) (simp add: AddIndexes_def)
  have "t2' = t2\<lparr>at_Indexes := at_Indexes t2 @ (idx2 # is2)\<rparr>"
    by (simp add: is2(1) AddIndexes_def)
  moreover have "list_all2 (index_translates t2) (idx1 # is) (idx2 # is2)"
    using is2(2) atIndex_Inr [OF a] by (simp add: eq)
  ultimately show ?case by blast
qed

lemma aIndexes_Inr:
  assumes "aIndexes h t1 t2 = Inr t2'"
  shows "\<exists>ps is2. t2' = t2\<lparr>at_Indexes := at_Indexes t2 @ is2,
        at_PrimaryKey := Some (NewPrimaryKey ps)\<rparr> \<and>
    list_all2 (\<lambda>c p. Column_of t2 (c_Name c) = Some p) (t_PrimaryKey t1) ps \<and>
    list_all2 (index_translates t2) (t_Indexes t1) is2"
proof -
  from assms obtain ps where ps: "pk_loop t2 (t_PrimaryKey t1) = Inr ps"
    and l: "indexes_loop h (t_Indexes t1) (t2\<lparr>at_PrimaryKey := Some (NewPrimaryKey ps)\<rparr>) = Inr t2'"
    by (auto simp: aIndexes_def split: sum.splits)
  from indexes_loop_Inr [OF l] obtain is2 where
    is2: "t2' = (t2\<lparr>at_PrimaryKey := Some (NewPrimaryKey ps)\<rparr>)
        \<lparr>at_Indexes := at_Indexes (t2\<lparr>at_PrimaryKey := Some (NewPrimaryKey ps)\<rparr>) @ is2\<rparr>"
      "list_all2 (index_translates (t2\<lparr>at_PrimaryKey := Some (NewPrimaryKey ps)\<rparr>)) (t_Indexes t1) is2"
    by blast
  have eq: "index_translates (t2\<lparr>at_PrimaryKey := Some (NewPrimaryKey ps)\<rparr>) = index_translates t2"
    by (rule index_translates_cong) simp
  have "t2' = t2\<lparr>at_Indexes := at_Indexes t2 @ is2,
        at_PrimaryKey := Some (NewPrimaryKey ps)\<rparr>"
    by (simp add: is2(1))
  with is2(2) pk_loop_Inr [OF ps] show ?thesis
    unfolding eq by blast
qed

lemma fold_AddChecks:
  "fold (\<lambda>name. AddChecks (f name)) names t = t\<lparr>at_Checks := at_Checks t @ map f names\<rparr>"
  by (induction names arbitrary: t) (simp_all add: AddChecks_def)

lemma atTable_frame:
  "\<exists>as cks. atTable t1 t2 = t2\<lparr>at_Attrs := as, at_Checks := cks\<rparr>"
proof -
  have *: "\<And>t. (\<exists>as cks. t = t2\<lparr>at_Attrs := as, at_Checks := cks\<rparr>) \<longleftrightarrow>
      (at_Name t = at_Name t2 \<and> at_Columns t = at_Columns t2 \<and> at_Indexes t = at_Indexes t2 \<and>
       at_PrimaryKey t = at_PrimaryKey t2 \<and> at_ForeignKeys t = at_ForeignKeys t2 \<and>
       ATable.more t = ATable.more t2)"
    by (auto intro!: exI ATable.equality)
  show ?thesis
    unfolding *
    by (simp add: atTable_def Let_def fold_AddChecks SetCharset_def SetCollation_def
        AddAttrs_def AddChecks_def split: option.splits)
qed

lemma aTable_Inr:
  assumes "aTable m h d t1 s = (Inr t2, s')"
  shows "table_translates h t1 t2 \<and> at_ForeignKeys t2 = [] \<and>
    (if universalID m
     then \<exists>r. pkRange h t1 s = (Inr r, s') \<and>
            at_Attrs t2 = at_Attrs (atTable t1 (NewTable (t_Name t1))) @ [AutoIncrement r]
     else s' = s \<and> at_Attrs t2 = at_Attrs (atTable t1 (NewTable (t_Name t1))))"
proof -
  define ta where "ta = atTable t1 (NewTable (t_Name t1))"
  obtain as cks where ta: "ta = (NewTable (t_Name t1))\<lparr>at_Attrs := as, at_Checks := cks\<rparr>"
    using atTable_frame [of t1 "NewTable (t_Name t1)"] unfolding ta_def by blast
  define tb where "tb = (if universalID m
      then (case pkRange h t1 s of (Inl err, s') \<Rightarrow> (Inl err, s')
            | (Inr r, s') \<Rightarrow> (Inr (atIncrementT ta r), s'))
      else (Inr ta, s))"
  from assms obtain t0 tc where tb: "tb = (Inr t0, s')"
    and c: "aColumns h d t1 t0 = Inr tc" and i: "aIndexes h t1 tc = Inr t2"
    unfolding aTable_def Let_def ta_def [symmetric] tb_def [symmetric]
    by (auto split: prod.splits sum.splits)
  have t0: "if universalID m
     then \<exists>r. pkRange h t1 s = (Inr r, s') \<and> t0 = ta\<lparr>at_Attrs := at_Attrs ta @ [AutoIncrement r]\<rparr>
     else s' = s \<and> t0 = ta"
    using tb unfolding tb_def
    by (auto simp: atIncrementT_def AddAttrs_def split: prod.splits sum.splits if_splits)
  have "\<exists>extra. t0 = ta\<lparr>at_Attrs := at_Attrs ta @ extra\<rparr>"
  proof (cases "universalID m")
    case True
    with t0 show ?thesis by auto
  next
    case False
    with t0 have "t0 = ta\<lparr>at_Attrs := at_Attrs ta @ []\<rparr>" by simp
    then show ?thesis by blast
  qed
  then obtain extra where extra: "t0 = ta\<lparr>at_Attrs := at_Attrs ta @ extra\<rparr>"
    by blast
  from aColumns_loop_Inr [OF c [unfolded aColumns_def]] obtain cs2 where
    cs2: "list_all2 (column_translates h) (t_Columns t1) cs2"
    and tc: "tc = t0\<lparr>at_Columns := at_Columns t0 @ cs2,
             at_Indexes := at_Indexes t0 @ implicit_indexes t1 (length (at_Columns t0)) (t_Columns t1)\<rparr>"
    by blast
  from aIndexes_Inr [OF i] obtain ps is2 where
    t2: "t2 = tc\<lparr>at_Indexes := at_Indexes tc @ is2, at_PrimaryKey := Some (NewPrimaryKey ps)\<rparr>"
    and ps: "list_all2 (\<lambda>c p. Column_of tc (c_Name c) = Some p) (t_PrimaryKey t1) ps"
    and is2: "list_all2 (index_translates tc) (t_Indexes t1) is2"
    by blast
  have cols: "at_Columns t2 = at_Columns tc"
    by (simp add: t2)
  have "table_translates h t1 t2"
    unfolding table_translates_def ta_def [symmetric]
      Column_of_cong [OF cols] index_translates_cong [OF cols]
    using cs2 ps is2
    by (auto simp: t2 tc extra ta NewTable_def)
  moreover have "at_ForeignKeys t2 = []"
    by (simp add: t2 tc extra ta NewTable_def)
  moreover have "at_Attrs t2 = at_Attrs t0"
    by (simp add: t2 tc)
  ultimately show ?thesis
    using t0 unfolding ta_def [symmetric] by (auto split: if_splits)
qed

lemma aTable_pkRange_error:
  assumes "universalID m" and "pkRange h t1 s = (Inl e, s')"
  shows "aTable m h d t1 s = (Inl e, s')"
  using assms by (simp add: aTable_def Let_def)

lemma build_tables_Inr:
  assumes "build_tables m h d ts s = (Inr t2s, s')"
  shows "list_all2 (\<lambda>t1 t2. table_translates h t1 t2 \<and> at_ForeignKeys t2 = []) ts t2s"
  using assms
proof (induction ts arbitrary: s t2s)
  case Nil
  then show ?case by simp
next
  case (Cons t1 ts)
  from Cons.prems obtain t2 s1 rest where a: "aTable m h d t1 s = (Inr t2, s1)"
    and b: "build_tables m h d ts s1 = (Inr rest, s')" and t2s: "t2s = t2 # rest"
    by (auto split: prod.splits sum.splits)
  from aTable_Inr [OF a] Cons.IH [OF b] show ?case
    by (simp add: t2s)
qed

lemma build_tables_append:
  "build_tables m h d (pre @ post) s =
    (case build_tables m h d pre s of
       (Inl e, s1) \<Rightarrow> (Inl e, s1)
     | (Inr a, s1) \<Rightarrow>
        (case build_tables m h d post s1 of
           (Inl e, s2) \<Rightarrow> (Inl e, s2)
         | (Inr b, s2) \<Rightarrow> (Inr (a @ b), s2)))"
  by (induction pre arbitrary: s) (auto split: prod.splits sum.splits)

lemma build_tables_state:
  assumes "universalID m" and "build_tables m h d ts s = (Inr t2s, s')"
  shows "s' = fold (\<lambda>t s. snd (pkRange h t s)) ts s"
  using assms(2)
proof (induction ts arbitrary: s t2s)
  case Nil
  then show ?case by simp
next
  case (Cons t1 ts)
  from Cons.prems obtain t2 s1 rest where a: "aTable m h d t1 s = (Inr t2, s1)"
    and b: "build_tables m h d ts s1 = (Inr rest, s')"
    by (auto split: prod.splits sum.splits)
  from aTable_Inr [OF a] assms(1) have "s1 = snd (pkRange h t1 s)"
    by auto
  with Cons.IH [OF b] show ?case by simp
qed

lemma fk_columns_cong:
  "at_Columns t = at_Columns t' \<Longrightarrow> fk_columns mk t cs = fk_columns mk t' cs"
  by (induction cs) (simp_all add: Column_of_cong [of t t'] split: option.splits)

lemma aForeignKey_cong:
  assumes R: "list_all2 (\<lambda>x y. at_Name x = at_Name y \<and> at_Columns x = at_Columns y) T T'"
    and i: "i < length T"
  shows "aForeignKey T i fk = aForeignKey T' i fk"
proof -
  have len: "length T = length T'"
    using R by (rule list_all2_lengthD)
  have cols: "\<And>j. j < length T \<Longrightarrow> at_Columns (T ! j) = at_Columns (T' ! j)"
    using R by (simp add: list_all2_conv_all_nth)
  have fp: "\<And>ref. find_pos (\<lambda>t2. at_Name t2 = ref) T = find_pos (\<lambda>t2. at_Name t2 = ref) T'"
    by (rule find_pos_cong) (use R in \<open>simp add: list_all2_conv_all_nth\<close>)
  have loc: "\<And>mk cs. fk_columns mk (T ! i) cs = fk_columns mk (T' ! i) cs"
    by (rule fk_columns_cong) (simp add: cols i)
  have ref: "\<And>mk cs ref j. find_pos (\<lambda>t2. at_Name t2 = ref) T' = Some j \<Longrightarrow>
      fk_columns mk (T ! j) cs = fk_columns mk (T' ! j) cs"
  proof -
    fix mk cs ref j
    assume "find_pos (\<lambda>t2. at_Name t2 = ref) T' = Some j"
    then have "j < length T" using find_pos_Some [of _ T' j] len by simp
    then show "fk_columns mk (T ! j) cs = fk_columns mk (T' ! j) cs"
      by (intro fk_columns_cong cols)
  qed
  show ?thesis
    unfolding aForeignKey_def loc fp
    by (auto split: sum.splits option.splits simp: ref)
qed

lemma fks_loop_collect:
  assumes "i < length T"
  shows "fks_loop i fks T =
    (case collect (map (aForeignKey T i) fks) of
       Inl e \<Rightarrow> Inl e
     | Inr fk2s \<Rightarrow> Inr (T[i := (T ! i)\<lparr>at_ForeignKeys := at_ForeignKeys (T ! i) @ fk2s\<rparr>]))"
  using assms
proof (induction fks arbitrary: T)
  case Nil
  then show ?case by simp
next
  case (Cons fk1 fks)
  show ?case
  proof (cases "aForeignKey T i fk1")
    case (Inl e)
    then show ?thesis by simp
  next
    case (Inr fk2)
    define T1 where "T1 = T[i := AddForeignKeys fk2 (T ! i)]"
    have len: "i < length T1" using Cons.prems by (simp add: T1_def)
    have R: "list_all2 (\<lambda>x y. at_Name x = at_Name y \<and> at_Columns x = at_Columns y) T1 T"
      unfolding T1_def list_all2_conv_all_nth
      using Cons.prems by (auto simp: nth_list_update AddForeignKeys_def)
    have eq: "map (aForeignKey T1 i) fks = map (aForeignKey T i) fks"
      using aForeignKey_cong [OF R len] by simp
    have T1i: "T1 ! i = AddForeignKeys fk2 (T ! i)"
      using Cons.prems by (simp add: T1_def)
    have "fks_loop i (fk1 # fks) T = fks_loop i fks T1"
      using Inr by (simp add: T1_def)
    also have "\<dots> = (case collect (map (aForeignKey T i) fks) of
       Inl e \<Rightarrow> Inl e
     | Inr fk2s \<Rightarrow> Inr (T1[i := (T1 ! i)\<lparr>at_ForeignKeys := at_ForeignKeys (T1 ! i) @ fk2s\<rparr>]))"
      using Cons.IH [OF len] by (simp add: eq)
    also have "\<dots> = (case collect (map (aForeignKey T i) (fk1 # fks)) of
       Inl e \<Rightarrow> Inl e
     | Inr fk2s \<Rightarrow> Inr (T[i := (T ! i)\<lparr>at_ForeignKeys := at_ForeignKeys (T ! i) @ fk2s\<rparr>]))"
      using Inr Cons.prems by (simp add: T1i AddForeignKeys_def T1_def split: sum.splits)
    finally show ?thesis .
  qed
qed

lemma resolve_tables_collect:
  assumes "length T = i + length ts"
  shows "resolve_tables i ts T =
    (case collect (map (\<lambda>(k, t). collect (map (aForeignKey T k) (t_ForeignKeys t)))
            (enumerate i ts)) of
       Inl e \<Rightarrow> Inl e
     | Inr fkss \<Rightarrow>
        Inr (take i T @
          map2 (\<lambda>t fks. t\<lparr>at_ForeignKeys := at_ForeignKeys t @ fks\<rparr>) (drop i T) fkss))"
  using assms
proof (induction ts arbitrary: i T)
  case Nil
  then show ?case by simp
next
  case (Cons t1 ts)
  have i: "i < length T" using Cons.prems by simp
  show ?case
  proof (cases "collect (map (aForeignKey T i) (t_ForeignKeys t1))")
    case (Inl e)
    then show ?thesis by (simp add: fks_loop_collect [OF i])
  next
    case (Inr fk2s)
    define T1 where "T1 = T[i := (T ! i)\<lparr>at_ForeignKeys := at_ForeignKeys (T ! i) @ fk2s\<rparr>]"
    have len: "length T1 = Suc i + length ts" using Cons.prems by (simp add: T1_def)
    have R: "list_all2 (\<lambda>x y. at_Name x = at_Name y \<and> at_Columns x = at_Columns y) T1 T"
      unfolding T1_def list_all2_conv_all_nth
      using i by (auto simp: nth_list_update)
    have eq: "map (\<lambda>(k, t). collect (map (aForeignKey T1 k) (t_ForeignKeys t))) (enumerate (Suc i) ts)
        = map (\<lambda>(k, t). collect (map (aForeignKey T k) (t_ForeignKeys t))) (enumerate (Suc i) ts)"
    proof (rule map_cong [OF refl])
      fix x assume x: "x \<in> set (enumerate (Suc i) ts)"
      obtain k t where kt: "x = (k, t)" by (cases x)
      from x have "k < length T1"
        unfolding kt in_set_enumerate_eq len by simp
      then have "aForeignKey T1 k = aForeignKey T k"
        by (intro ext aForeignKey_cong [OF R])
      then show "(case x of (k, t) \<Rightarrow> collect (map (aForeignKey T1 k) (t_ForeignKeys t))) =
            (case x of (k, t) \<Rightarrow> collect (map (aForeignKey T k) (t_ForeignKeys t)))"
        by (simp add: kt)
    qed
    have tk: "take (Suc i) T1 = take i T @ [(T ! i)\<lparr>at_ForeignKeys := at_ForeignKeys (T ! i) @ fk2s\<rparr>]"
      using i by (simp add: T1_def take_Suc_conv_app_nth)
    have dr: "drop (Suc i) T1 = drop (Suc i) T"
      by (simp add: T1_def)
    have dr0: "drop i T = T ! i # drop (Suc i) T"
      using i by (simp add: Cons_nth_drop_Suc)
    have "resolve_tables i (t1 # ts) T = resolve_tables (Suc i) ts T1"
      using Inr by (simp add: fks_loop_collect [OF i] T1_def)
    also have "\<dots> = (case collect (map (\<lambda>(k, t). collect (map (aForeignKey T k) (t_ForeignKeys t)))
            (enumerate (Suc i) ts)) of
       Inl e \<Rightarrow> Inl e
     | Inr fkss \<Rightarrow>
        Inr (take (Suc i) T1 @
          map2 (\<lambda>t fks. t\<lparr>at_ForeignKeys := at_ForeignKeys t @ fks\<rparr>) (drop (Suc i) T1) fkss))"
      using Cons.IH [OF len] by (simp add: eq)
    also have "\<dots> = (case collect (map (\<lambda>(k, t). collect (map (aForeignKey T k) (t_ForeignKeys t)))
            (enumerate i (t1 # ts))) of
       Inl e \<Rightarrow> Inl e
     | Inr fkss \<Rightarrow>
        Inr (take i T @
          map2 (\<lambda>t fks. t\<lparr>at_ForeignKeys := at_ForeignKeys t @ fks\<rparr>) (drop i T) fkss))"
      using Inr by (simp add: tk dr dr0 split: sum.splits)
    finally show ?thesis .
  qed
qed

section \<open>Universal ids and default values\<close>

text \<open>
  C8. With universal ids enabled, when the tables before \<open>t1\<close> have been built and the
  query of the primary-key range of \<open>t1\<close> fails, \<open>aTables\<close> returns that error and no
  table set, whatever the columns of \<open>t1\<close> and the tables after it are. The connection
  is left in the state in which the failed query left it: the query is not repeated and
  no later table is queried. Before that, the connection went through one query for each
  earlier table, in order.
\<close>

theorem aTables_pkRange_error:
  assumes "universalID m"
    and "build_tables m h d pre s = (Inr out, s1)"
    and "pkRange h t1 s1 = (Inl e, s2)"
  shows "aTables m h d (pre @ t1 # post) s = (Inl e, s2)
       \<and> s1 = fold (\<lambda>t s. snd (pkRange h t s)) pre s"
proof -
  have "aTable m h d t1 s1 = (Inl e, s2)"
    using assms(1,3) by (rule aTable_pkRange_error)
  then have "build_tables m h d (pre @ t1 # post) s = (Inl e, s2)"
    by (simp add: build_tables_append assms(2))
  then have "aTables m h d (pre @ t1 # post) s = (Inl e, s2)"
    by (simp add: aTables_def)
  moreover have "s1 = fold (\<lambda>t s. snd (pkRange h t s)) pre s"
    using assms(1,2) by (rule build_tables_state)
  ultimately show ?thesis by simp
qed

lemma example_build_good:
  "\<exists>out. build_tables \<lparr>universalID = True\<rparr> example_helpers \<lparr>version = ''8.0.19''\<rparr>
      [example_table ''good''] [] = (Inr out, [''good''])"
  by (simp add: aTable_def Let_def example_helpers_def example_table_def example_column_def
      aColumns_def aColumn_def atTypeC_def map_get_def aIndexes_def Column_of_def
      AddColumns_def NewColumn_def atIncrementC_def AddColumnAttrs_def NewTable_def
      atTable_def SetCharset_def SetCollation_def atIncrementT_def AddAttrs_def)

theorem aTables_pkRange_error_witness:
  "aTables \<lparr>universalID = True\<rparr> example_helpers \<lparr>version = ''8.0.19''\<rparr>
     ([example_table ''good''] @
        (example_table ''bad'')\<lparr>t_Columns := [example_column ''payload'' TypeOther]\<rparr> #
        [example_table ''other'']) []
   = (Inl (DatabaseError ''connection lost''), [''good'', ''bad''])"
proof -
  obtain out where b: "build_tables \<lparr>universalID = True\<rparr> example_helpers \<lparr>version = ''8.0.19''\<rparr>
      [example_table ''good''] [] = (Inr out, [''good''])"
    using example_build_good by blast
  have q: "pkRange example_helpers
        ((example_table ''bad'')\<lparr>t_Columns := [example_column ''payload'' TypeOther]\<rparr>) [''good'']
      = (Inl (DatabaseError ''connection lost''), [''good'', ''bad''])"
    by (simp add: example_helpers_def example_table_def)
  have u: "universalID \<lparr>universalID = True\<rparr>" by simp
  from aTables_pkRange_error [OF u b q, of "[example_table ''other'']"]
  show ?thesis by simp
qed

text \<open>
  C6. When \<open>aColumns\<close> succeeds, the k-th translated column of a column with a default
  that the database supports carries the default as follows: a string default of a column
  whose type is neither UUID nor time is wrapped in single quotes, with every single quote
  in it written twice; for a column of type UUID or time the default is the printed value,
  unquoted.
\<close>

theorem aColumns_default:
  assumes "aColumns h d t1 t2 = Inr t2'"
    and "k < length (t_Columns t1)"
    and "c_Default (t_Columns t1 ! k) = Some v"
    and "supportDefault h (t_Columns t1 ! k)"
  shows "(\<forall>s. v = VString s \<and> c_Type (t_Columns t1 ! k) \<noteq> TypeUUID \<and>
             c_Type (t_Columns t1 ! k) \<noteq> TypeTime \<longrightarrow>
           ac_Default (at_Columns t2' ! (length (at_Columns t2) + k)) =
             Some ([CHR 0x27] @ concat (map (\<lambda>c. if c = CHR 0x27 then [CHR 0x27, CHR 0x27] else [c]) s)
                   @ [CHR 0x27]))
       \<and> (c_Type (t_Columns t1 ! k) = TypeUUID \<or> c_Type (t_Columns t1 ! k) = TypeTime \<longrightarrow>
           ac_Default (at_Columns t2' ! (length (at_Columns t2) + k)) = Some (Sprint v))"
proof -
  from aColumns_loop_Inr [OF assms(1) [unfolded aColumns_def]] obtain cs2 where
    cs2: "list_all2 (column_translates h) (t_Columns t1) cs2"
    and t2': "at_Columns t2' = at_Columns t2 @ cs2"
    by auto
  from cs2 assms(2) have "column_translates h (t_Columns t1 ! k) (cs2 ! k)"
    by (rule list_all2_nthD)
  moreover have "at_Columns t2' ! (length (at_Columns t2) + k) = cs2 ! k"
    by (simp add: t2')
  ultimately show ?thesis
    using assms(3,4)
    by (auto simp: column_translates_def quote_def escape_quotes_def split: go_value.splits
        cong: if_cong)
qed

lemma example_aColumns:
  "\<exists>t2'. aColumns example_helpers \<lparr>version = ''8.0.19''\<rparr>
      ((example_table ''books'')\<lparr>t_Columns :=
          [(example_column ''title'' TypeString)\<lparr>c_Default := Some (VString ''it's'')\<rparr>]\<rparr>)
      (NewTable ''books'') = Inr t2'"
  by (simp add: example_helpers_def example_table_def example_column_def
      aColumns_def aColumn_def atTypeC_def map_get_def Let_def)

theorem aColumns_default_witness:
  "case aColumns example_helpers \<lparr>version = ''8.0.19''\<rparr>
      ((example_table ''books'')\<lparr>t_Columns :=
          [(example_column ''title'' TypeString)\<lparr>c_Default := Some (VString ''it's'')\<rparr>]\<rparr>)
      (NewTable ''books'') of
     Inl e \<Rightarrow> False
   | Inr t2' \<Rightarrow> ac_Default (at_Columns t2' ! 0) = Some [CHR 0x27, CHR ''i'', CHR ''t'', CHR 0x27, CHR 0x27, CHR ''s'', CHR 0x27]"
proof -
  obtain t2' where a: "aColumns example_helpers \<lparr>version = ''8.0.19''\<rparr>
      ((example_table ''books'')\<lparr>t_Columns :=
          [(example_column ''title'' TypeString)\<lparr>c_Default := Some (VString ''it's'')\<rparr>]\<rparr>)
      (NewTable ''books'') = Inr t2'"
    using example_aColumns by blast
  from aColumns_default [OF a, of 0 "VString ''it's''"]
  have "ac_Default (at_Columns t2' ! 0) =
      Some [CHR 0x27, CHR ''i'', CHR ''t'', CHR 0x27, CHR 0x27, CHR ''s'', CHR 0x27]"
    by (simp add: example_table_def example_column_def example_helpers_def NewTable_def)
  then show ?thesis
    unfolding a by simp
qed

section \<open>Implicit unique indexes\<close>

lemma TrimLeft_fresh:
  assumes "suffix_after cname name = Some suf"
    and "suffix_fresh cname name"
  shows "TrimLeft name (cname @ ''_'') = suf"
proof -
  from assms(1) have "prefix (cname @ ''_'') name" and suf: "suf = drop (length cname + 1) name"
    by (auto simp: suffix_after_def split: if_splits)
  then have name: "name = (cname @ ''_'') @ suf"
    by (auto simp: prefix_def)
  have "TrimLeft name (cname @ ''_'') = dropWhile (\<lambda>c. c \<in> set (cname @ ''_'')) suf"
    unfolding TrimLeft_def by (subst name, rule dropWhile_append2) simp
  also have "\<dots> = suf"
    using assms by (cases suf) (simp_all add: suffix_fresh_def)
  finally show ?thesis .
qed

lemma atImplicitIndexName_spec:
  assumes "suffix_fresh (c_Name c1) (i_Name idx)"
  shows "atImplicitIndexName idx c1 = spec_implicit_name (c_Name c1) (i_Name idx)"
proof (cases "suffix_after (c_Name c1) (i_Name idx)")
  case None
  then have "\<not> prefix (c_Name c1 @ ''_'') (i_Name idx)"
    by (simp add: suffix_after_def split: if_splits)
  with None show ?thesis
    by (simp add: atImplicitIndexName_def spec_implicit_name_def)
next
  case (Some suf)
  then have p: "prefix (c_Name c1 @ ''_'') (i_Name idx)"
    by (simp add: suffix_after_def split: if_splits)
  have "(case ParseInt suf of None \<Rightarrow> False | Some i \<Rightarrow> i > 1) =
        (case ParseInt suf of None \<Rightarrow> False | Some i \<Rightarrow> i \<ge> 2)"
    by (auto split: option.splits)
  then show ?thesis
    using p by (simp add: atImplicitIndexName_def spec_implicit_name_def Some
        TrimLeft_fresh [OF Some assms])
qed

text \<open>
  C2 (amended). For a column marked unique that \<open>aColumn\<close> translates, looking only at
  the names of the explicit unique indexes of the table (not at the columns they cover),
  and for index names that are \<open>suffix_fresh\<close> for the column: if some explicit unique
  index has a name that follows the implicit naming convention, no index is added;
  otherwise exactly one index is added, unique, named as the column, with one part that
  points to the column just translated.
\<close>

theorem aColumn_unique_index:
  assumes "aColumn h d t1 c1 t2 = Inr t2'"
    and "c_Unique c1"
    and "\<forall>idx\<in>set (t_Indexes t1). i_Unique idx \<longrightarrow> suffix_fresh (c_Name c1) (i_Name idx)"
  shows "at_Indexes t2' = at_Indexes t2 @
      (if \<exists>idx\<in>set (t_Indexes t1). i_Unique idx \<and> spec_implicit_name (c_Name c1) (i_Name idx)
       then []
       else [\<lparr>ai_Name = c_Name c1, ai_Unique = True,
               ai_Parts = [\<lparr>ip_C = length (at_Columns t2), ip_Attrs = []\<rparr>]\<rparr>])
    \<and> length (at_Columns t2') = Suc (length (at_Columns t2))
    \<and> ac_Name (at_Columns t2' ! length (at_Columns t2)) = c_Name c1"
proof -
  from aColumn_Inr [OF assms(1)] obtain c2 where c2: "column_translates h c1 c2"
    and t2': "t2' = t2\<lparr>at_Columns := at_Columns t2 @ [c2],
             at_Indexes := at_Indexes t2 @ implicit_indexes t1 (length (at_Columns t2)) [c1]\<rparr>"
    by blast
  have "list_ex (\<lambda>idx. i_Unique idx \<and> atImplicitIndexName idx c1) (t_Indexes t1) \<longleftrightarrow>
      (\<exists>idx\<in>set (t_Indexes t1). i_Unique idx \<and> spec_implicit_name (c_Name c1) (i_Name idx))"
    using assms(3) by (auto simp: list_ex_iff atImplicitIndexName_spec)
  then show ?thesis
    using c2 assms(2) by (simp add: t2' column_translates_def)
qed

text \<open>
  Outside \<open>suffix_fresh\<close> the source and the convention differ: for the column \<open>c2\<close>
  the index name \<open>c2_2\<close> follows the convention, but \<^verbatim>\<open>TrimLeft\<close> removes all of it
  and the source does not recognise it.
\<close>

lemma atImplicitIndexName_cutset_example:
  "\<not> atImplicitIndexName \<lparr>i_Name = ''c2_2'', i_Unique = True, i_Columns = [example_column ''c2'' TypeInt]\<rparr>
       (example_column ''c2'' TypeInt)
   \<and> spec_implicit_name ''c2'' ''c2_2''"
  by (simp add: atImplicitIndexName_def example_column_def TrimLeft_def ParseInt_def
      spec_implicit_name_def suffix_after_def is_digit_def digits_val_def digit_val_def)

text \<open>
  C2 as stated fails: the only explicit unique index of the table is named \<open>c\<close> and
  covers the columns \<open>a\<close> and \<open>b\<close>, not exactly the unique column \<open>c\<close>; the claim
  has one implicit index added for \<open>c\<close>, the source adds none.
\<close>

theorem atUniqueC_ignores_columns:
  "c_Unique (t_Columns example_unique_table ! 2)
   \<and> map (\<lambda>idx. (i_Name idx, i_Unique idx, map c_Name (i_Columns idx))) (t_Indexes example_unique_table)
       = [(''c'', True, [''a'', ''b''])]
   \<and> c_Name (t_Columns example_unique_table ! 2) = ''c''
   \<and> at_Indexes (atUniqueC example_unique_table (t_Columns example_unique_table ! 2) (NewTable ''t'') 2) = []"
  by (simp add: example_unique_table_def example_column_def atUniqueC_def atImplicitIndexName_def
      NewTable_def)

lemma example_aColumn_email:
  "\<exists>t2'. aColumn example_helpers \<lparr>version = ''8.0.19''\<rparr> (example_email_table idxs)
      ((example_column ''email'' TypeString)\<lparr>c_Unique := True\<rparr>)
      (AddColumns (NewColumn ''id'') (NewTable ''users'')) = Inr t2'"
  by (simp add: example_helpers_def example_column_def aColumn_def atTypeC_def map_get_def Let_def)

theorem aColumn_unique_index_witness:
  "(case aColumn example_helpers \<lparr>version = ''8.0.19''\<rparr>
      (example_email_table [\<lparr>i_Name = ''email_2'', i_Unique = True,
                              i_Columns = [example_column ''id'' TypeInt]\<rparr>])
      ((example_column ''email'' TypeString)\<lparr>c_Unique := True\<rparr>)
      (AddColumns (NewColumn ''id'') (NewTable ''users'')) of
     Inl e \<Rightarrow> False
   | Inr t2' \<Rightarrow> at_Indexes t2' = [])
 \<and> (case aColumn example_helpers \<lparr>version = ''8.0.19''\<rparr>
      (example_email_table [\<lparr>i_Name = ''email_key'', i_Unique = True,
                              i_Columns = [example_column ''email'' TypeString]\<rparr>])
      ((example_column ''email'' TypeString)\<lparr>c_Unique := True\<rparr>)
      (AddColumns (NewColumn ''id'') (NewTable ''users'')) of
     Inl e \<Rightarrow> False
   | Inr t2' \<Rightarrow> at_Indexes t2' =
       [\<lparr>ai_Name = ''email'', ai_Unique = True, ai_Parts = [\<lparr>ip_C = 1, ip_Attrs = []\<rparr>]\<rparr>])"
proof -
  define col where "col = (example_column ''email'' TypeString)\<lparr>c_Unique := True\<rparr>"
  define t0 where "t0 = AddColumns (NewColumn ''id'') (NewTable ''users'')"
  define ia where "ia = \<lparr>i_Name = ''email_2'', i_Unique = True,
                              i_Columns = [example_column ''id'' TypeInt]\<rparr>"
  define ib where "ib = \<lparr>i_Name = ''email_key'', i_Unique = True,
                              i_Columns = [example_column ''email'' TypeString]\<rparr>"
  have t0: "at_Indexes t0 = []" "length (at_Columns t0) = 1"
    by (simp_all add: t0_def AddColumns_def NewTable_def)
  have col: "c_Unique col" "c_Name col = ''email''"
    by (simp_all add: col_def example_column_def)
  obtain ta where a: "aColumn example_helpers \<lparr>version = ''8.0.19''\<rparr> (example_email_table [ia]) col t0 = Inr ta"
    using example_aColumn_email [of "[ia]"] unfolding col_def t0_def by blast
  obtain tb where b: "aColumn example_helpers \<lparr>version = ''8.0.19''\<rparr> (example_email_table [ib]) col t0 = Inr tb"
    using example_aColumn_email [of "[ib]"] unfolding col_def t0_def by blast
  have fa: "\<forall>idx\<in>set (t_Indexes (example_email_table [ia])).
      i_Unique idx \<longrightarrow> suffix_fresh (c_Name col) (i_Name idx)"
    by (simp add: example_email_table_def ia_def col suffix_fresh_def suffix_after_def)
  have fb: "\<forall>idx\<in>set (t_Indexes (example_email_table [ib])).
      i_Unique idx \<longrightarrow> suffix_fresh (c_Name col) (i_Name idx)"
    by (simp add: example_email_table_def ib_def col suffix_fresh_def suffix_after_def)
  have sa: "spec_implicit_name ''email'' ''email_2''"
    by (simp add: spec_implicit_name_def suffix_after_def ParseInt_def is_digit_def
        digits_val_def digit_val_def)
  have sb: "\<not> spec_implicit_name ''email'' ''email_key''"
    by (simp add: spec_implicit_name_def suffix_after_def ParseInt_def is_digit_def)
  from aColumn_unique_index [OF a col(1) fa] have "at_Indexes ta = []"
    by (simp add: example_email_table_def ia_def col t0 sa)
  moreover from aColumn_unique_index [OF b col(1) fb] have "at_Indexes tb =
       [\<lparr>ai_Name = ''email'', ai_Unique = True, ai_Parts = [\<lparr>ip_C = 1, ip_Attrs = []\<rparr>]\<rparr>]"
    by (simp add: example_email_table_def ib_def col t0 sb)
  ultimately show ?thesis
    unfolding col_def [symmetric] t0_def [symmetric] ia_def [symmetric] ib_def [symmetric] a b
    by simp
qed

section \<open>The second pass: foreign keys\<close>

lemma Column_of_None: "Column_of t n = None \<longleftrightarrow> n \<notin> set (map ac_Name (at_Columns t))"
  by (auto simp: Column_of_def find_pos_None)

lemma err_of_fk_columns: "err_of (fk_columns mk t cs) = map_option mk (first_missing t cs)"
proof (induction cs)
  case Nil
  then show ?case by (simp add: err_of_def first_missing_def)
next
  case (Cons c cs)
  show ?case
  proof (cases "Column_of t (c_Name c)")
    case None
    then show ?thesis
      using Column_of_None [of t "c_Name c"] by (simp add: err_of_def first_missing_def)
  next
    case (Some p)
    then have "c_Name c \<in> set (map ac_Name (at_Columns t))"
      using Column_of_None [of t "c_Name c"] by auto
    then have "first_missing t (c # cs) = first_missing t cs"
      by (simp add: first_missing_def)
    with Cons Some show ?thesis
      by (auto simp: err_of_def split: sum.splits)
  qed
qed

lemma find_find_pos: "find P xs = map_option (nth xs) (find_pos P xs)"
  by (induction xs) (auto split: option.splits)

lemma fk_columns_Inl:
  "fk_columns mk t cs = Inl e \<Longrightarrow> map_option mk (first_missing t cs) = Some e"
  using err_of_fk_columns [of mk t cs] by (simp add: err_of_def)

lemma fk_columns_Inr:
  "fk_columns mk t cs = Inr ps \<Longrightarrow> first_missing t cs = None"
  using err_of_fk_columns [of mk t cs] by (simp add: err_of_def)

lemma err_of_aForeignKey: "err_of (aForeignKey T i fk) = spec_fk_error T i fk"
proof (cases "fk_columns (UnexpectedFkColumn (fk_Symbol fk)) (T ! i) (fk_Columns fk)")
  case (Inl e)
  from fk_columns_Inl [OF this] Inl show ?thesis
    by (auto simp: aForeignKey_def spec_fk_error_def err_of_def)
next
  case cols: (Inr cols)
  note loc = fk_columns_Inr [OF cols]
  show ?thesis
  proof (cases "fk_RefTable fk")
    case None
    with cols loc show ?thesis
      by (simp add: aForeignKey_def spec_fk_error_def err_of_def)
  next
    case ref: (Some ref)
    show ?thesis
    proof (cases "find_pos (\<lambda>t2. at_Name t2 = ref) T")
      case None
      with cols loc ref show ?thesis
        by (simp add: aForeignKey_def spec_fk_error_def err_of_def find_find_pos)
    next
      case j: (Some j)
      show ?thesis
      proof (cases "fk_columns (UnexpectedFkRefColumn (fk_Symbol fk)) (T ! j) (fk_RefColumns fk)")
        case (Inl e)
        from fk_columns_Inl [OF this] Inl cols loc ref j show ?thesis
          by (auto simp: aForeignKey_def spec_fk_error_def err_of_def find_find_pos)
      next
        case (Inr refcols)
        from fk_columns_Inr [OF this] Inr cols loc ref j show ?thesis
          by (simp add: aForeignKey_def spec_fk_error_def err_of_def find_find_pos)
      qed
    qed
  qed
qed

lemma err_of_collect: "err_of (collect xs) = first_some (map err_of xs)"
  by (induction xs) (auto simp: err_of_def split: sum.splits)

lemma first_some_append:
  "first_some (xs @ ys) = (case first_some xs of Some e \<Rightarrow> Some e | None \<Rightarrow> first_some ys)"
  by (induction xs) (auto split: option.splits)

lemma first_some_concat: "first_some (concat xss) = first_some (map first_some xss)"
  by (induction xss) (auto simp: first_some_append split: option.splits)

lemma err_of_resolve_tables:
  assumes "length T = length ts"
  shows "err_of (resolve_tables 0 ts T) = spec_first_fk_error T ts"
proof -
  have "err_of (resolve_tables 0 ts T) =
      err_of (collect (map (\<lambda>(k, t). collect (map (aForeignKey T k) (t_ForeignKeys t)))
            (enumerate 0 ts)))"
    using assms by (simp add: resolve_tables_collect err_of_def split: sum.splits)
  also have "\<dots> = first_some (map (\<lambda>(k, t). first_some (map (spec_fk_error T k) (t_ForeignKeys t)))
      (enumerate 0 ts))"
    by (simp add: err_of_collect comp_def case_prod_unfold err_of_aForeignKey)
  also have "\<dots> = spec_first_fk_error T ts"
    by (simp add: spec_first_fk_error_def first_some_concat comp_def case_prod_unfold)
  finally show ?thesis .
qed

lemma collect_map_Inr: "collect (map Inr vs) = Inr vs"
  by (induction vs) simp_all

lemma collect_Inr: "collect xs = Inr vs \<longleftrightarrow> xs = map Inr vs"
proof
  show "collect xs = Inr vs \<Longrightarrow> xs = map Inr vs"
    by (induction xs arbitrary: vs) (auto split: sum.splits)
qed (simp add: collect_map_Inr)

lemma resolve_tables_Inr:
  assumes r: "resolve_tables 0 ts T = Inr out" and len: "length T = length ts"
  shows "length out = length ts \<and>
    (\<forall>i<length ts. \<exists>fk2s.
        out ! i = (T ! i)\<lparr>at_ForeignKeys := at_ForeignKeys (T ! i) @ fk2s\<rparr> \<and>
        list_all2 (\<lambda>fk1 fk2. aForeignKey T i fk1 = Inr fk2) (t_ForeignKeys (ts ! i)) fk2s)"
proof -
  define X where "X = map (\<lambda>(k, t). collect (map (aForeignKey T k) (t_ForeignKeys t))) (enumerate 0 ts)"
  from r len obtain fkss where X: "collect X = Inr fkss"
    and out: "out = map2 (\<lambda>t fks. t\<lparr>at_ForeignKeys := at_ForeignKeys t @ fks\<rparr>) T fkss"
    by (auto simp: resolve_tables_collect X_def split: sum.splits)
  from X have Xm: "X = map Inr fkss" by (simp add: collect_Inr)
  then have l: "length fkss = length ts"
    by (metis X_def length_enumerate length_map)
  have "length out = length ts"
    by (simp add: out l len)
  moreover have "\<exists>fk2s.
        out ! i = (T ! i)\<lparr>at_ForeignKeys := at_ForeignKeys (T ! i) @ fk2s\<rparr> \<and>
        list_all2 (\<lambda>fk1 fk2. aForeignKey T i fk1 = Inr fk2) (t_ForeignKeys (ts ! i)) fk2s"
    if i: "i < length ts" for i
  proof -
    have "X ! i = collect (map (aForeignKey T i) (t_ForeignKeys (ts ! i)))"
      using i by (simp add: X_def nth_enumerate_eq)
    moreover have "X ! i = Inr (fkss ! i)"
      using i l by (simp add: Xm)
    ultimately have "collect (map (aForeignKey T i) (t_ForeignKeys (ts ! i))) = Inr (fkss ! i)"
      by simp
    then have "map (aForeignKey T i) (t_ForeignKeys (ts ! i)) = map Inr (fkss ! i)"
      by (simp only: collect_Inr)
    then have "list_all2 (\<lambda>fk1 fk2. aForeignKey T i fk1 = Inr fk2) (t_ForeignKeys (ts ! i)) (fkss ! i)"
      by (simp add: list_all2_conv_all_nth list_eq_iff_nth_eq)
    moreover have "out ! i = (T ! i)\<lparr>at_ForeignKeys := at_ForeignKeys (T ! i) @ fkss ! i\<rparr>"
      using i l len by (simp add: out)
    ultimately show ?thesis by blast
  qed
  ultimately show ?thesis by blast
qed

lemma aForeignKey_Inr:
  assumes "aForeignKey T i fk1 = Inr fk2"
  shows "afk_Symbol fk2 = fk_Symbol fk1 \<and>
    (\<exists>ref j. fk_RefTable fk1 = Some ref \<and> afk_RefTable fk2 = Some j \<and>
       find_pos (\<lambda>t2. at_Name t2 = ref) T = Some j \<and>
       fk_columns (UnexpectedFkColumn (fk_Symbol fk1)) (T ! i) (fk_Columns fk1) = Inr (afk_Columns fk2) \<and>
       fk_columns (UnexpectedFkRefColumn (fk_Symbol fk1)) (T ! j) (fk_RefColumns fk1)
         = Inr (afk_RefColumns fk2))"
  using assms
  by (auto simp: aForeignKey_def split: sum.splits option.splits)

text \<open>
  C1 (amended). Once every table has been built, \<open>aTables\<close> fails exactly when some
  foreign key has an unresolved reference, and its error is the one of the first failing
  check of the first such foreign key: the error names the key and the missing local
  column, or the key and the name of the referenced table when no translated table has
  that name, or the key and the missing referenced column. When no foreign key fails,
  \<open>aTables\<close> returns the tables, each with all the foreign keys of its input table, in
  order: none is dropped.
\<close>

theorem aTables_foreign_keys:
  assumes "build_tables m h d ts s = (Inr t2s, s')"
  shows "case spec_first_fk_error t2s ts of
      Some e \<Rightarrow> aTables m h d ts s = (Inl e, s')
    | None \<Rightarrow>
        (\<exists>out. aTables m h d ts s = (Inr out, s') \<and> length out = length ts \<and>
           (\<forall>i<length ts. map afk_Symbol (at_ForeignKeys (out ! i)) =
               map fk_Symbol (t_ForeignKeys (ts ! i))))"
proof -
  have len: "length t2s = length ts"
    using build_tables_Inr [OF assms] by (simp add: list_all2_lengthD)
  have nofk: "\<And>i. i < length ts \<Longrightarrow> at_ForeignKeys (t2s ! i) = []"
    using build_tables_Inr [OF assms] by (simp add: list_all2_conv_all_nth)
  have a: "aTables m h d ts s = (resolve_tables 0 ts t2s, s')"
    by (simp add: aTables_def assms)
  show ?thesis
  proof (cases "resolve_tables 0 ts t2s")
    case (Inl e)
    with err_of_resolve_tables [OF len] have "spec_first_fk_error t2s ts = Some e"
      by (simp add: err_of_def)
    with a Inl show ?thesis by simp
  next
    case (Inr out)
    with err_of_resolve_tables [OF len] have n: "spec_first_fk_error t2s ts = None"
      by (simp add: err_of_def)
    from resolve_tables_Inr [OF Inr len] have lo: "length out = length ts"
      and sh: "\<And>i. i < length ts \<Longrightarrow> \<exists>fk2s.
        out ! i = (t2s ! i)\<lparr>at_ForeignKeys := at_ForeignKeys (t2s ! i) @ fk2s\<rparr> \<and>
        list_all2 (\<lambda>fk1 fk2. aForeignKey t2s i fk1 = Inr fk2) (t_ForeignKeys (ts ! i)) fk2s"
      by blast+
    have "map afk_Symbol (at_ForeignKeys (out ! i)) = map fk_Symbol (t_ForeignKeys (ts ! i))"
      if i: "i < length ts" for i
    proof -
      from sh [OF i] obtain fk2s where
        o: "out ! i = (t2s ! i)\<lparr>at_ForeignKeys := at_ForeignKeys (t2s ! i) @ fk2s\<rparr>"
        and l: "list_all2 (\<lambda>fk1 fk2. aForeignKey t2s i fk1 = Inr fk2) (t_ForeignKeys (ts ! i)) fk2s"
        by blast
      from l have "list_all2 (\<lambda>fk1 fk2. afk_Symbol fk2 = fk_Symbol fk1) (t_ForeignKeys (ts ! i)) fk2s"
        by (rule list_all2_mono) (simp add: aForeignKey_Inr)
      then have "map afk_Symbol fk2s = map fk_Symbol (t_ForeignKeys (ts ! i))"
        by (simp add: list_all2_conv_all_nth list_eq_iff_nth_eq)
      then show ?thesis by (simp add: o nofk [OF i])
    qed
    with a Inr n lo show ?thesis by simp
  qed
qed

lemma example_build:
  "build_tables \<lparr>universalID = False\<rparr> example_helpers \<lparr>version = ''8.0.19''\<rparr>
      [StreetsTable local ref, CitiesTable] s = (Inr [built_streets, built_cities], s)"
  by (simp add: aTable_def Let_def example_helpers_def StreetsTable_def CitiesTable_def
      example_column_def built_streets_def built_cities_def
      aColumns_def aColumn_def atTypeC_def map_get_def aIndexes_def Column_of_def
      AddColumns_def NewColumn_def atIncrementC_def AddColumnAttrs_def NewTable_def
      atTable_def SetCharset_def SetCollation_def atIndex_def NewIndex_def AddParts_def
      AddIndexes_def NewPrimaryKey_def part_of_def MaxUint16_def
      TypeBigInt_def TypeVarchar_def)

theorem aTables_foreign_keys_witness:
  "aTables \<lparr>universalID = False\<rparr> example_helpers \<lparr>version = ''8.0.19''\<rparr>
      [StreetsTable ''city_streets'' ''towns'', CitiesTable] []
    = (Inl (UnexpectedFkRefTable ''streets_cities_streets'' ''towns''), [])"
  using aTables_foreign_keys [OF example_build [of "''city_streets''" "''towns''" "[]"]]
  by (simp add: spec_first_fk_error_def spec_fk_error_def first_missing_def
      StreetsTable_def CitiesTable_def built_streets_def built_cities_def example_column_def)

text \<open>
  C1 as stated fails: the foreign key refers to the table \<open>towns\<close>, which is not in the
  table set, and its local column \<open>city\<close> is not a column of \<open>streets\<close>; the error
  names the column, not the referenced table.
\<close>

theorem aTables_names_column_first:
  "fst (aTables \<lparr>universalID = False\<rparr> example_helpers \<lparr>version = ''8.0.19''\<rparr>
      [StreetsTable ''city'' ''towns'', CitiesTable] [])
    = Inl (UnexpectedFkColumn ''streets_cities_streets'' ''city'')
   \<and> map fk_RefTable (t_ForeignKeys (StreetsTable ''city'' ''towns'')) = [Some ''towns'']
   \<and> ''towns'' \<notin> set (map t_Name [StreetsTable ''city'' ''towns'', CitiesTable])"
proof -
  have a: "aTables \<lparr>universalID = False\<rparr> example_helpers \<lparr>version = ''8.0.19''\<rparr>
      [StreetsTable ''city'' ''towns'', CitiesTable] []
    = (resolve_tables 0 [StreetsTable ''city'' ''towns'', CitiesTable] [built_streets, built_cities], [])"
    by (simp only: aTables_def example_build prod.case sum.case)
  have r: "resolve_tables 0 [StreetsTable ''city'' ''towns'', CitiesTable] [built_streets, built_cities]
    = Inl (UnexpectedFkColumn ''streets_cities_streets'' ''city'')"
    by (simp add: aForeignKey_def Column_of_def StreetsTable_def built_streets_def
        example_column_def)
  show ?thesis
    unfolding a r by (simp add: StreetsTable_def CitiesTable_def)
qed

section \<open>The order of the translation\<close>

lemma Column_of_Some:
  assumes "Column_of t n = Some p"
  shows "p < length (at_Columns t) \<and> ac_Name (at_Columns t ! p) = n"
  using find_pos_Some [OF assms [unfolded Column_of_def]] by simp

lemma Column_of_names:
  assumes "list_all2 (\<lambda>c p. Column_of t (c_Name c) = Some p) cs ps"
  shows "map (\<lambda>p. ac_Name (at_Columns t ! p)) ps = map c_Name cs"
  using assms by (induction rule: list_all2_induct) (simp_all add: Column_of_Some)

lemma fk_columns_Inr_all2:
  assumes "fk_columns mk t cs = Inr ps"
  shows "list_all2 (\<lambda>c p. Column_of t (c_Name c) = Some p) cs ps"
  using assms
  by (induction cs arbitrary: ps) (auto split: option.splits sum.splits)

lemma aForeignKey_resolves:
  assumes "aForeignKey T i fk1 = Inr fk2"
  shows "fk_resolves T i fk1 fk2"
proof -
  from aForeignKey_Inr [OF assms] obtain ref j where
    sym: "afk_Symbol fk2 = fk_Symbol fk1"
    and ref: "fk_RefTable fk1 = Some ref" and j: "afk_RefTable fk2 = Some j"
    and fp: "find_pos (\<lambda>t2. at_Name t2 = ref) T = Some j"
    and loc: "fk_columns (UnexpectedFkColumn (fk_Symbol fk1)) (T ! i) (fk_Columns fk1) = Inr (afk_Columns fk2)"
    and rc: "fk_columns (UnexpectedFkRefColumn (fk_Symbol fk1)) (T ! j) (fk_RefColumns fk1)
         = Inr (afk_RefColumns fk2)"
    by blast
  from find_pos_Some [OF fp] have jl: "j < length T" and nm: "at_Name (T ! j) = ref"
    and first: "\<forall>j'<j. at_Name (T ! j') \<noteq> ref"
    by simp_all
  show ?thesis
    unfolding fk_resolves_def
    using sym ref j jl nm first
      Column_of_names [OF fk_columns_Inr_all2 [OF loc]]
      Column_of_names [OF fk_columns_Inr_all2 [OF rc]]
    by auto
qed

lemma fk_resolves_cong:
  assumes "list_all2 (\<lambda>x y. at_Name x = at_Name y \<and> at_Columns x = at_Columns y) T T'"
    and "i < length T" and "fk_resolves T i fk1 fk2"
  shows "fk_resolves T' i fk1 fk2"
proof -
  have len: "length T = length T'"
    using assms(1) by (rule list_all2_lengthD)
  have eq: "\<And>j. j < length T \<Longrightarrow> at_Name (T ! j) = at_Name (T' ! j) \<and>
      at_Columns (T ! j) = at_Columns (T' ! j)"
    using assms(1) by (simp add: list_all2_conv_all_nth)
  from assms(3) obtain j where j: "j < length T" "afk_RefTable fk2 = Some j"
    "fk_RefTable fk1 = Some (at_Name (T ! j))"
    "\<forall>j'<j. at_Name (T ! j') \<noteq> at_Name (T ! j)"
    "map (\<lambda>p. ac_Name (at_Columns (T ! i) ! p)) (afk_Columns fk2) = map c_Name (fk_Columns fk1)"
    "map (\<lambda>p. ac_Name (at_Columns (T ! j) ! p)) (afk_RefColumns fk2) = map c_Name (fk_RefColumns fk1)"
    and sym: "afk_Symbol fk2 = fk_Symbol fk1"
    unfolding fk_resolves_def by blast
  have "\<forall>j'<j. at_Name (T' ! j') \<noteq> at_Name (T' ! j)"
    using j(1,4) eq by (metis less_trans)
  then show ?thesis
    unfolding fk_resolves_def
    using j sym eq [OF j(1)] eq [OF assms(2)] len
    by (intro conjI exI [of _ j]) simp_all
qed

lemma table_translates_shape:
  assumes "table_translates h t1 t2"
  shows "at_Name t2 = t_Name t1
    \<and> prefix (at_Attrs (atTable t1 (NewTable (t_Name t1)))) (at_Attrs t2)
    \<and> map ac_Name (at_Columns t2) = map c_Name (t_Columns t1)
    \<and> (\<forall>k<length (t_Columns t1). c_Increment (t_Columns t1 ! k) \<longrightarrow>
          AutoIncrement 0 \<in> set (ac_Attrs (at_Columns t2 ! k)))
    \<and> (\<exists>explicit. at_Indexes t2 = implicit_indexes t1 0 (t_Columns t1) @ explicit \<and>
          map ai_Name explicit = map i_Name (t_Indexes t1))
    \<and> (\<exists>pk. at_PrimaryKey t2 = Some pk \<and>
          map (\<lambda>p. ac_Name (at_Columns t2 ! ip_C p)) (ai_Parts pk) = map c_Name (t_PrimaryKey t1))"
proof -
  from assms have nm: "at_Name t2 = t_Name t1"
    and at: "prefix (at_Attrs (atTable t1 (NewTable (t_Name t1)))) (at_Attrs t2)"
    and cols: "list_all2 (column_translates h) (t_Columns t1) (at_Columns t2)"
    by (simp_all add: table_translates_def)
  from assms obtain is2 ps where
    is2: "at_Indexes t2 = implicit_indexes t1 0 (t_Columns t1) @ is2"
      "list_all2 (index_translates t2) (t_Indexes t1) is2"
    and ps: "at_PrimaryKey t2 = Some (NewPrimaryKey ps)"
      "list_all2 (\<lambda>c p. Column_of t2 (c_Name c) = Some p) (t_PrimaryKey t1) ps"
    unfolding table_translates_def by blast
  have names: "map ac_Name (at_Columns t2) = map c_Name (t_Columns t1)"
    using cols by (simp add: list_all2_conv_all_nth list_eq_iff_nth_eq column_translates_def)
  have incr: "\<forall>k<length (t_Columns t1). c_Increment (t_Columns t1 ! k) \<longrightarrow>
          AutoIncrement 0 \<in> set (ac_Attrs (at_Columns t2 ! k))"
    using cols by (simp add: list_all2_conv_all_nth column_translates_def)
  have inames: "map ai_Name is2 = map i_Name (t_Indexes t1)"
    using is2(2) by (simp add: list_all2_conv_all_nth list_eq_iff_nth_eq index_translates_def)
  have pk: "map (\<lambda>p. ac_Name (at_Columns t2 ! ip_C p)) (ai_Parts (NewPrimaryKey ps))
      = map c_Name (t_PrimaryKey t1)"
    using Column_of_names [OF ps(2)] by (simp add: NewPrimaryKey_def part_of_def comp_def)
  show ?thesis
    using nm at names incr is2(1) inames ps(1) pk by blast
qed

lemma table_translates_fks:
  "table_translates h t1 (t2\<lparr>at_ForeignKeys := fks\<rparr>) = table_translates h t1 t2"
proof -
  have c: "Column_of (t2\<lparr>at_ForeignKeys := fks\<rparr>) = Column_of t2"
    by (rule Column_of_cong) simp
  have i: "index_translates (t2\<lparr>at_ForeignKeys := fks\<rparr>) = index_translates t2"
    by (rule index_translates_cong) simp
  show ?thesis
    by (simp add: table_translates_def c i)
qed

text \<open>
  C4. When \<open>aTables\<close> succeeds, it returns one table for each input table, in order, and
  each output table shows the order of the translation: it has the name of its input
  table; its attributes start with the table attributes that \<open>atTable\<close> sets; its
  columns have the names of the input columns in the same order, a column marked
  \<open>Increment\<close> carrying the auto-increment marker; its index list starts with the
  implicit unique indexes attached while the columns were processed (in column order,
  each pointing to its column), followed by the explicit indexes in their order; its
  primary key points to the columns named by the input primary key; and each foreign key
  is resolved by name against the whole translated list, so it may point to a table that
  comes later in the list.
\<close>

theorem aTables_order:
  assumes "aTables m h d ts s = (Inr out, s')"
  shows "length out = length ts \<and> (\<forall>i<length ts.
      at_Name (out ! i) = t_Name (ts ! i)
    \<and> prefix (at_Attrs (atTable (ts ! i) (NewTable (t_Name (ts ! i))))) (at_Attrs (out ! i))
    \<and> map ac_Name (at_Columns (out ! i)) = map c_Name (t_Columns (ts ! i))
    \<and> (\<forall>k<length (t_Columns (ts ! i)). c_Increment (t_Columns (ts ! i) ! k) \<longrightarrow>
          AutoIncrement 0 \<in> set (ac_Attrs (at_Columns (out ! i) ! k)))
    \<and> (\<exists>explicit. at_Indexes (out ! i) = implicit_indexes (ts ! i) 0 (t_Columns (ts ! i)) @ explicit \<and>
          map ai_Name explicit = map i_Name (t_Indexes (ts ! i)))
    \<and> (\<exists>pk. at_PrimaryKey (out ! i) = Some pk \<and>
          map (\<lambda>p. ac_Name (at_Columns (out ! i) ! ip_C p)) (ai_Parts pk)
            = map c_Name (t_PrimaryKey (ts ! i)))
    \<and> list_all2 (fk_resolves out i) (t_ForeignKeys (ts ! i)) (at_ForeignKeys (out ! i)))"
proof -
  from assms obtain T where b: "build_tables m h d ts s = (Inr T, s')"
    and r: "resolve_tables 0 ts T = Inr out"
    by (auto simp: aTables_def split: prod.splits sum.splits)
  have bt: "list_all2 (\<lambda>t1 t2. table_translates h t1 t2 \<and> at_ForeignKeys t2 = []) ts T"
    using b by (rule build_tables_Inr)
  then have len: "length T = length ts"
    by (simp add: list_all2_lengthD)
  from resolve_tables_Inr [OF r len] have lo: "length out = length ts"
    and sh: "\<And>i. i < length ts \<Longrightarrow> \<exists>fk2s.
        out ! i = (T ! i)\<lparr>at_ForeignKeys := at_ForeignKeys (T ! i) @ fk2s\<rparr> \<and>
        list_all2 (\<lambda>fk1 fk2. aForeignKey T i fk1 = Inr fk2) (t_ForeignKeys (ts ! i)) fk2s"
    by blast+
  have R: "list_all2 (\<lambda>x y. at_Name x = at_Name y \<and> at_Columns x = at_Columns y) T out"
    unfolding list_all2_conv_all_nth
  proof (intro conjI allI impI)
    show "length T = length out" by (simp add: len lo)
  next
    fix i assume "i < length T"
    then have "i < length ts" by (simp add: len)
    from sh [OF this] show "at_Name (T ! i) = at_Name (out ! i)"
      and "at_Columns (T ! i) = at_Columns (out ! i)" by auto
  qed
  have "at_Name (out ! i) = t_Name (ts ! i)
    \<and> prefix (at_Attrs (atTable (ts ! i) (NewTable (t_Name (ts ! i))))) (at_Attrs (out ! i))
    \<and> map ac_Name (at_Columns (out ! i)) = map c_Name (t_Columns (ts ! i))
    \<and> (\<forall>k<length (t_Columns (ts ! i)). c_Increment (t_Columns (ts ! i) ! k) \<longrightarrow>
          AutoIncrement 0 \<in> set (ac_Attrs (at_Columns (out ! i) ! k)))
    \<and> (\<exists>explicit. at_Indexes (out ! i) = implicit_indexes (ts ! i) 0 (t_Columns (ts ! i)) @ explicit \<and>
          map ai_Name explicit = map i_Name (t_Indexes (ts ! i)))
    \<and> (\<exists>pk. at_PrimaryKey (out ! i) = Some pk \<and>
          map (\<lambda>p. ac_Name (at_Columns (out ! i) ! ip_C p)) (ai_Parts pk)
            = map c_Name (t_PrimaryKey (ts ! i)))
    \<and> list_all2 (fk_resolves out i) (t_ForeignKeys (ts ! i)) (at_ForeignKeys (out ! i))"
    if i: "i < length ts" for i
  proof -
    from sh [OF i] obtain fk2s where
      o: "out ! i = (T ! i)\<lparr>at_ForeignKeys := at_ForeignKeys (T ! i) @ fk2s\<rparr>"
      and l: "list_all2 (\<lambda>fk1 fk2. aForeignKey T i fk1 = Inr fk2) (t_ForeignKeys (ts ! i)) fk2s"
      by blast
    from bt i have tt: "table_translates h (ts ! i) (T ! i)" and nofk: "at_ForeignKeys (T ! i) = []"
      by (simp_all add: list_all2_conv_all_nth)
    have "table_translates h (ts ! i) (out ! i)"
      using tt by (simp add: o table_translates_fks)
    note shape = table_translates_shape [OF this]
    have iT: "i < length T" using i len by simp
    from l have "list_all2 (fk_resolves out i) (t_ForeignKeys (ts ! i)) fk2s"
    proof (rule list_all2_mono)
      fix fk1 fk2 assume "aForeignKey T i fk1 = Inr fk2"
      then have "fk_resolves T i fk1 fk2" by (rule aForeignKey_resolves)
      with R iT show "fk_resolves out i fk1 fk2" by (rule fk_resolves_cong)
    qed
    then have "list_all2 (fk_resolves out i) (t_ForeignKeys (ts ! i)) (at_ForeignKeys (out ! i))"
      by (simp add: o nofk)
    with shape show ?thesis by blast
  qed
  with lo show ?thesis by blast
qed

lemma example_aTables:
  "aTables \<lparr>universalID = False\<rparr> example_helpers \<lparr>version = ''8.0.19''\<rparr>
      [StreetsTable ''city_streets'' ''cities'', CitiesTable] []
    = (Inr [built_streets\<lparr>at_ForeignKeys :=
              [\<lparr>afk_Symbol = ''streets_cities_streets'', afk_Columns = [2],
                afk_RefTable = Some 1, afk_RefColumns = [0],
                afk_OnUpdate = [], afk_OnDelete = ''SET NULL''\<rparr>]\<rparr>,
            built_cities], [])"
proof -
  have a: "aTables \<lparr>universalID = False\<rparr> example_helpers \<lparr>version = ''8.0.19''\<rparr>
      [StreetsTable ''city_streets'' ''cities'', CitiesTable] []
    = (resolve_tables 0 [StreetsTable ''city_streets'' ''cities'', CitiesTable]
        [built_streets, built_cities], [])"
    by (simp only: aTables_def example_build prod.case sum.case)
  show ?thesis
    unfolding a
    by (simp add: aForeignKey_def Column_of_def StreetsTable_def CitiesTable_def
        built_streets_def built_cities_def example_column_def AddForeignKeys_def)
qed

theorem aTables_order_witness:
  "(case fst (aTables \<lparr>universalID = False\<rparr> example_helpers \<lparr>version = ''8.0.19''\<rparr>
      [StreetsTable ''city_streets'' ''cities'', CitiesTable] []) of
     Inl e \<Rightarrow> False
   | Inr out \<Rightarrow>
       map at_Name out = [''streets'', ''cities''] \<and>
       map ac_Name (at_Columns (out ! 0)) = [''id'', ''name'', ''city_streets''] \<and>
       map ai_Name (at_Indexes (out ! 0)) = [''street_name_city_streets''] \<and>
       map afk_RefTable (at_ForeignKeys (out ! 0)) = [Some 1])"
  using aTables_order [OF example_aTables]
  by (simp add: example_aTables built_streets_def built_cities_def)

end
